theory Spec2Isabelle
  imports Complex_Main
begin

section \<open>Rate limiter (sp\_api/utils/rate\_limiter.py)\<close>

text \<open>
  Instants and durations are real numbers of seconds. The limiter keeps
  \<open>calls_per_second\<close>, \<open>minimum_interval\<close> and the dictionary
  \<open>last_call_time\<close> from endpoint to instant.
\<close>

datatype error =
    ApiError string
  | SqlError string
  | ValueError
  | UnboundLocalError
  | AttributeError string
  | ZeroDivisionError




section \<open>Records, the staging store and its schema (sp\_api/utils/sql\_staging\_definitions.py)\<close>

text \<open>
  A \<open>datetime\<close> is an instant in microseconds, the resolution of Python's type; a
  duration is a number of microseconds. A record fetched from the upstream is a
  dictionary from field names to values. A value is a string; the strings that
  \<open>datetime.fromisoformat\<close> accepts are written \<open>JTime d\<close>, \<open>d\<close> being the
  instant they denote, and all others \<open>JStr s\<close>.
\<close>

type_synonym datetime = int

datatype jval = JStr string | JTime datetime

type_synonym pyrecord = "(string \<times> jval) list"

definition dict_get :: "pyrecord \<Rightarrow> string \<Rightarrow> jval option" where
  "dict_get r k = map_of r k"

fun fromisoformat :: "jval \<Rightarrow> error + datetime" where
  "fromisoformat (JTime d) = Inr d"
| "fromisoformat (JStr s) = Inl ValueError"

text \<open>
  The columns that \<open>STAGING_SCHEMAS\<close> and \<open>ARCHIVE_SCHEMAS\<close> create; a table
  of any other name does not exist. A statement that names a missing table or
  column is rejected by the server.
\<close>

definition STAGING_SCHEMAS :: "string \<Rightarrow> string list option" where
  "STAGING_SCHEMAS t =
     (if t = ''Orders'' then
        Some [''StagingId'', ''AmazonOrderId'', ''RawData'', ''ProcessedDate'',
              ''ValidationStatus'', ''ValidationMessage'', ''IsDuplicate'', ''BatchId'',
              ''InsertedAt'']
      else if t = ''OrderItems'' then
        Some [''StagingId'', ''AmazonOrderId'', ''ASIN'', ''RawData'', ''ProcessedDate'',
              ''ValidationStatus'', ''ValidationMessage'', ''IsDuplicate'', ''BatchId'',
              ''InsertedAt'']
      else if t = ''Inventory'' then
        Some [''StagingId'', ''SellerSKU'', ''ASIN'', ''RawData'', ''ProcessedDate'',
              ''ValidationStatus'', ''ValidationMessage'', ''IsDuplicate'', ''BatchId'',
              ''InsertedAt'']
      else None)"

definition ARCHIVE_SCHEMAS :: "string \<Rightarrow> string list option" where
  "ARCHIVE_SCHEMAS t =
     (if t = ''Orders'' then
        Some [''ArchiveId'', ''OriginalId'', ''AmazonOrderId'', ''RawData'', ''ProcessedDate'',
              ''BatchId'', ''ArchivedAt'']
      else if t = ''Inventory'' then
        Some [''ArchiveId'', ''OriginalId'', ''SellerSKU'', ''ASIN'', ''RawData'',
              ''ProcessedDate'', ''BatchId'', ''ArchivedAt'']
      else None)"

definition has_columns :: "string list option \<Rightarrow> string list \<Rightarrow> bool" where
  "has_columns schema cols =
     (case schema of None \<Rightarrow> False | Some cs \<Rightarrow> list_all (\<lambda>c. c \<in> set cs) cols)"

record staging_row =
  StagingId :: nat
  AmazonOrderId :: "jval option"
  SellerSKU :: "jval option"
  RawData :: pyrecord
  BatchId :: nat
  ValidationStatus :: string

record archive_row =
  OriginalId :: nat
  ArchivedOrderId :: "jval option"
  ArchivedRawData :: pyrecord
  ArchivedBatchId :: nat

record control_entry =
  ControlId :: nat
  DataType :: string
  LastProcessedDate :: "datetime option"
  LastBatchId :: nat
  RecordsProcessed :: "nat option"
  Status :: string

text \<open>
  What the upstream answers to one call: the list under \<open>Orders\<close> (or
  \<open>inventory\<close>), absent when the key is missing, and \<open>NextToken\<close>.
\<close>

record response =
  Records :: "pyrecord list option"
  NextToken :: "string option"

datatype event =
    Call
  | Warning nat
  | Sleep nat
  | Emit "pyrecord list"

text \<open>
  The world a run acts on: the staging and archive tables by name, the
  \<open>ProcessingControl\<close> table, the identity counters, the supply of batch
  identifiers (\<open>uuid.uuid4()\<close>), the clock, the outcomes of the database
  transactions still to come (\<open>Some e\<close>: the transaction raises \<open>e\<close> and is rolled
  back; a transaction beyond the list succeeds), the answers of the upstream still to
  come (a call beyond the list raises), and the trace of calls, logged retries,
  sleeps and batches handed to the store.
\<close>

record world =
  stage :: "string \<Rightarrow> staging_row list"
  archive :: "string \<Rightarrow> archive_row list"
  control :: "control_entry list"
  stage_identity :: "string \<Rightarrow> nat"
  control_identity :: nat
  uuid_supply :: nat
  clock :: datetime
  faults :: "error option list"
  api :: "(error + response) list"
  trace :: "event list"

definition uuid4 :: "world \<Rightarrow> nat \<times> world" where
  "uuid4 w = (uuid_supply w, w\<lparr>uuid_supply := Suc (uuid_supply w)\<rparr>)"

definition connect :: "world \<Rightarrow> error option \<times> world" where
  "connect w = (case faults w of [] \<Rightarrow> (None, w) | f # fs \<Rightarrow> (f, w\<lparr>faults := fs\<rparr>))"

definition time_sleep :: "nat \<Rightarrow> world \<Rightarrow> world" where
  "time_sleep d w = w\<lparr>clock := clock w + int d, trace := trace w @ [Sleep d]\<rparr>"

definition seconds :: "nat \<Rightarrow> nat" where
  "seconds n = n * 1000000"

definition days :: "nat \<Rightarrow> int" where
  "days n = int n * 86400000000"

subsection \<open>The processing-control ledger\<close>

definition record_processing_start :: "string \<Rightarrow> nat \<Rightarrow> world \<Rightarrow> (error + nat) \<times> world" where
  "record_processing_start data_type batch_id w =
     (case connect w of
        (Some e, w1) \<Rightarrow> (Inl e, w1)
      | (None, w1) \<Rightarrow>
          (let control_id = Suc (control_identity w1) in
           (Inr control_id,
            w1\<lparr>control := control w1 @
                   [\<lparr>ControlId = control_id, DataType = data_type, LastProcessedDate = None,
                     LastBatchId = batch_id, RecordsProcessed = None,
                     Status = ''IN_PROGRESS''\<rparr>],
                control_identity := control_id\<rparr>)))"

definition record_processing_complete ::
  "nat \<Rightarrow> datetime \<Rightarrow> nat \<Rightarrow> string \<Rightarrow> world \<Rightarrow> (error + unit) \<times> world" where
  "record_processing_complete control_id last_processed_date records_processed status w =
     (case connect w of
        (Some e, w1) \<Rightarrow> (Inl e, w1)
      | (None, w1) \<Rightarrow>
          (Inr (),
           w1\<lparr>control :=
                 map (\<lambda>c. if ControlId c = control_id
                          then c\<lparr>Status := status,
                                 LastProcessedDate := Some last_processed_date,
                                 RecordsProcessed := Some records_processed\<rparr>
                          else c)
                     (control w1)\<rparr>))"

text \<open>
  \<open>SELECT TOP 1 LastProcessedDate ... ORDER BY LastProcessedDate DESC\<close>: the first
  row of the descending order, \<open>NULL\<close> being the least value; no row when the
  selection is empty.
\<close>

fun top1_desc :: "datetime option list \<Rightarrow> datetime option option" where
  "top1_desc [] = None"
| "top1_desc (d # ds) =
     (case top1_desc ds of
        None \<Rightarrow> Some d
      | Some m \<Rightarrow>
          (case (d, m) of
             (None, _) \<Rightarrow> Some m
           | (Some x, None) \<Rightarrow> Some (Some x)
           | (Some x, Some y) \<Rightarrow> Some (Some (max x y))))"

definition get_last_processed_date :: "string \<Rightarrow> world \<Rightarrow> (error + datetime option) \<times> world" where
  "get_last_processed_date data_type w =
     (case connect w of
        (Some e, w1) \<Rightarrow> (Inl e, w1)
      | (None, w1) \<Rightarrow>
          (let result = top1_desc
                 (map LastProcessedDate
                    (filter (\<lambda>c. DataType c = data_type \<and> Status c = ''SUCCESS'') (control w1)))
           in (Inr (case result of None \<Rightarrow> None | Some r \<Rightarrow> r), w1)))"

subsection \<open>Archive, append and replace\<close>

definition column_value :: "string \<Rightarrow> staging_row \<Rightarrow> jval option" where
  "column_value c r =
     (if c = ''AmazonOrderId'' then AmazonOrderId r
      else if c = ''SellerSKU'' then SellerSKU r
      else None)"

definition to_archive :: "staging_row \<Rightarrow> archive_row" where
  "to_archive r =
     \<lparr>OriginalId = StagingId r, ArchivedOrderId = AmazonOrderId r,
      ArchivedRawData = RawData r, ArchivedBatchId = BatchId r\<rparr>"

text \<open>
  \<open>archive_data\<close>: one transaction that copies the selected staging rows into the
  archive table and deletes them from staging (\<open>WHERE BatchId = ? OR ? IS NULL\<close>).
  Both statements name \<open>AmazonOrderId\<close>, so they are rejected for a table whose
  staging or archive schema lacks that column.
\<close>

definition archive_data :: "string \<Rightarrow> nat option \<Rightarrow> world \<Rightarrow> (error + unit) \<times> world" where
  "archive_data table_name batch_id w =
     (case connect w of
        (Some e, w1) \<Rightarrow> (Inl e, w1)
      | (None, w1) \<Rightarrow>
          if \<not> (has_columns (ARCHIVE_SCHEMAS table_name)
                    [''OriginalId'', ''AmazonOrderId'', ''RawData'', ''ProcessedDate'', ''BatchId'']
                \<and> has_columns (STAGING_SCHEMAS table_name)
                    [''StagingId'', ''AmazonOrderId'', ''RawData'', ''ProcessedDate'', ''BatchId''])
          then (Inl (SqlError ''Invalid object or column name''), w1)
          else
            (let selected = (\<lambda>r. batch_id = Some (BatchId r) \<or> batch_id = None) in
             (Inr (),
              w1\<lparr>archive := (archive w1)
                     (table_name := archive w1 table_name
                        @ map to_archive (filter selected (stage w1 table_name))),
                  stage := (stage w1)
                     (table_name := filter (\<lambda>r. \<not> selected r) (stage w1 table_name))\<rparr>)))"

definition dedup_key_of :: "string \<Rightarrow> string option" where
  "dedup_key_of table_name =
     (if table_name = ''Orders'' then Some ''AmazonOrderId''
      else if table_name = ''Inventory'' then Some ''SellerSKU''
      else None)"

text \<open>\<open>record.get(dedup_key)\<close>; \<open>record.get(None)\<close> is \<open>None\<close>.\<close>

definition record_key :: "string option \<Rightarrow> pyrecord \<Rightarrow> jval option" where
  "record_key dedup_key r = (case dedup_key of None \<Rightarrow> None | Some k \<Rightarrow> dict_get r k)"

text \<open>
  \<open>SELECT DISTINCT <dedup_key> FROM [stage].[SP_API_<table>]\<close> read into a set.
\<close>

definition existing_keys :: "string \<Rightarrow> string \<Rightarrow> world \<Rightarrow> (error + jval option list) \<times> world" where
  "existing_keys dedup_key table_name w =
     (case connect w of
        (Some e, w1) \<Rightarrow> (Inl e, w1)
      | (None, w1) \<Rightarrow>
          if \<not> has_columns (STAGING_SCHEMAS table_name) [dedup_key]
          then (Inl (SqlError ''Invalid object or column name''), w1)
          else (Inr (remdups (map (column_value dedup_key) (stage w1 table_name))), w1))"

text \<open>
  The insert loop: one transaction, committed after the last record; nothing is
  executed for an empty list. Each row gets the next identity value.
\<close>

fun new_rows :: "nat \<Rightarrow> nat \<Rightarrow> jval option list \<Rightarrow> pyrecord list \<Rightarrow> staging_row list" where
  "new_rows ident batch_id [] [] = []"
| "new_rows ident batch_id (k # ks) (r # rs) =
     \<lparr>StagingId = Suc ident, AmazonOrderId = k, SellerSKU = None, RawData = r,
      BatchId = batch_id, ValidationStatus = ''PENDING''\<rparr>
       # new_rows (Suc ident) batch_id ks rs"
| "new_rows ident batch_id _ _ = []"

definition insert_records ::
  "string \<Rightarrow> nat \<Rightarrow> jval option list \<Rightarrow> pyrecord list \<Rightarrow> world \<Rightarrow> (error + unit) \<times> world" where
  "insert_records table_name batch_id keys recs w =
     (case connect w of
        (Some e, w1) \<Rightarrow> (Inl e, w1)
      | (None, w1) \<Rightarrow>
          if recs \<noteq> [] \<and>
             \<not> has_columns (STAGING_SCHEMAS table_name)
                 [''AmazonOrderId'', ''RawData'', ''BatchId'', ''ValidationStatus'']
          then (Inl (SqlError ''Invalid object or column name''), w1)
          else
            (Inr (),
             w1\<lparr>stage := (stage w1)
                    (table_name := stage w1 table_name
                       @ new_rows (stage_identity w1 table_name) batch_id keys recs),
                 stage_identity := (stage_identity w1)
                    (table_name := stage_identity w1 table_name + length recs)\<rparr>))"

record append_result =
  batch_id :: nat
  records_processed :: nat
  duplicates_skipped :: nat

record replace_result =
  r_batch_id :: nat
  r_records_processed :: nat

text \<open>\<open>last_processed_date or datetime.now()\<close>\<close>

definition or_now :: "datetime option \<Rightarrow> world \<Rightarrow> datetime" where
  "or_now last_processed_date w = (case last_processed_date of None \<Rightarrow> clock w | Some d \<Rightarrow> d)"

text \<open>
  The \<open>except\<close> branch of \<open>append_data\<close> and \<open>replace_data\<close>: mark the control
  entry \<open>ERROR\<close> with zero records, then re-raise; when the update raises, its
  exception is the one that propagates.
\<close>

definition mark_error :: "nat \<Rightarrow> datetime option \<Rightarrow> error \<Rightarrow> world \<Rightarrow> error \<times> world" where
  "mark_error control_id last_processed_date e w =
     (case record_processing_complete control_id (or_now last_processed_date w) 0 ''ERROR'' w of
        (Inl e', w1) \<Rightarrow> (e', w1)
      | (Inr _, w1) \<Rightarrow> (e, w1))"

text \<open>The statements of \<open>append_data\<close> between the start entry and the return.\<close>

definition append_body ::
  "pyrecord list \<Rightarrow> string \<Rightarrow> datetime option \<Rightarrow> nat \<Rightarrow> nat \<Rightarrow> world
     \<Rightarrow> (error + append_result) \<times> world" where
  "append_body data table_name last_processed_date bid control_id w =
     (let dedup_key = dedup_key_of table_name in
      case (case dedup_key of
              None \<Rightarrow> (Inr data, w)
            | Some k \<Rightarrow>
                (case existing_keys k table_name w of
                   (Inl e, w1) \<Rightarrow> (Inl e, w1)
                 | (Inr existing_keys_set, w1) \<Rightarrow>
                     (Inr (filter (\<lambda>r. record_key dedup_key r \<notin> set existing_keys_set) data),
                      w1))) of
        (Inl e, w1) \<Rightarrow> (Inl e, w1)
      | (Inr new_data, w1) \<Rightarrow>
          (case insert_records table_name bid (map (record_key dedup_key) new_data) new_data w1 of
             (Inl e, w2) \<Rightarrow> (Inl e, w2)
           | (Inr _, w2) \<Rightarrow>
               (case record_processing_complete control_id (or_now last_processed_date w2)
                       (length new_data) ''SUCCESS'' w2 of
                  (Inl e, w3) \<Rightarrow> (Inl e, w3)
                | (Inr _, w3) \<Rightarrow>
                    (Inr \<lparr>batch_id = bid, records_processed = length new_data,
                          duplicates_skipped = length data - length new_data\<rparr>, w3))))"

text \<open>
  \<open>append_data\<close>. When \<open>record_processing_start\<close> raises, \<open>control_id\<close> is not
  bound yet and the \<open>except\<close> branch raises \<open>UnboundLocalError\<close> in its turn.
\<close>

definition append_data ::
  "pyrecord list \<Rightarrow> string \<Rightarrow> datetime option \<Rightarrow> world \<Rightarrow> (error + append_result) \<times> world" where
  "append_data data table_name last_processed_date w =
     (case uuid4 w of (bid, w0) \<Rightarrow>
        (case record_processing_start table_name bid w0 of
           (Inl e, w1) \<Rightarrow> (Inl UnboundLocalError, w1)
         | (Inr control_id, w1) \<Rightarrow>
             (case append_body data table_name last_processed_date bid control_id w1 of
                (Inl e, w2) \<Rightarrow>
                  (case mark_error control_id last_processed_date e w2 of
                     (e', w3) \<Rightarrow> (Inl e', w3))
              | (Inr res, w2) \<Rightarrow> (Inr res, w2))))"

definition replace_body ::
  "pyrecord list \<Rightarrow> string \<Rightarrow> datetime option \<Rightarrow> nat \<Rightarrow> nat \<Rightarrow> world
     \<Rightarrow> (error + replace_result) \<times> world" where
  "replace_body data table_name last_processed_date bid control_id w =
     (case archive_data table_name None w of
        (Inl e, w1) \<Rightarrow> (Inl e, w1)
      | (Inr _, w1) \<Rightarrow>
          (case insert_records table_name bid
                  (map (\<lambda>r. dict_get r ''AmazonOrderId'') data) data w1 of
             (Inl e, w2) \<Rightarrow> (Inl e, w2)
           | (Inr _, w2) \<Rightarrow>
               (case record_processing_complete control_id (or_now last_processed_date w2)
                       (length data) ''SUCCESS'' w2 of
                  (Inl e, w3) \<Rightarrow> (Inl e, w3)
                | (Inr _, w3) \<Rightarrow>
                    (Inr \<lparr>r_batch_id = bid, r_records_processed = length data\<rparr>, w3))))"

definition replace_data ::
  "pyrecord list \<Rightarrow> string \<Rightarrow> datetime option \<Rightarrow> world \<Rightarrow> (error + replace_result) \<times> world" where
  "replace_data data table_name last_processed_date w =
     (case uuid4 w of (bid, w0) \<Rightarrow>
        (case record_processing_start table_name bid w0 of
           (Inl e, w1) \<Rightarrow> (Inl UnboundLocalError, w1)
         | (Inr control_id, w1) \<Rightarrow>
             (case replace_body data table_name last_processed_date bid control_id w1 of
                (Inl e, w2) \<Rightarrow>
                  (case mark_error control_id last_processed_date e w2 of
                     (e', w3) \<Rightarrow> (Inl e', w3))
              | (Inr res, w2) \<Rightarrow> (Inr res, w2))))"

section \<open>Batch processor (sp\_api/utils/batch\_processor.py)\<close>

record BatchProcessor =
  batch_size :: nat
  rate_limit_pause :: nat
  max_retries :: nat

record stats =
  total_processed :: nat
  total_batches :: nat
  errors :: nat
  batch_ids :: "nat list"
  mode :: string

definition init_stats :: "string \<Rightarrow> stats" where
  "init_stats md =
     \<lparr>total_processed = 0, total_batches = 0, errors = 0, batch_ids = [], mode = md\<rparr>"

text \<open>
  One call of the upstream (\<open>get_orders\<close>, \<open>get_inventory_summary\<close> or
  \<open>get_inventory_details\<close>): the next answer of the script, whatever the request.
\<close>

definition api_call :: "world \<Rightarrow> (error + response) \<times> world" where
  "api_call w =
     (case api w of
        [] \<Rightarrow> (Inl (ApiError ''no response''), w\<lparr>trace := trace w @ [Call]\<rparr>)
      | r # rs \<Rightarrow> (r, w\<lparr>api := rs, trace := trace w @ [Call]\<rparr>))"

definition log_warning :: "nat \<Rightarrow> world \<Rightarrow> world" where
  "log_warning retry_count w = w\<lparr>trace := trace w @ [Warning retry_count]\<rparr>"

text \<open>
  The retry loop around a call. \<open>Inr None\<close>: the \<open>while\<close> condition was false and
  the loop ended without binding the response.
\<close>

function fetch_with_retry :: "nat \<Rightarrow> nat \<Rightarrow> world \<Rightarrow> (error + response option) \<times> world" where
  "fetch_with_retry maxr retry_count w =
     (if retry_count < maxr then
        (case api_call w of
           (Inr resp, w1) \<Rightarrow> (Inr (Some resp), w1)
         | (Inl e, w1) \<Rightarrow>
             (if Suc retry_count = maxr then (Inl e, w1)
              else fetch_with_retry maxr (Suc retry_count)
                     (time_sleep (seconds (2 ^ Suc retry_count))
                        (log_warning (Suc retry_count) w1))))
      else (Inr None, w))"
  by pat_completeness auto
termination
  by (relation "measure (\<lambda>(maxr, retry_count, w). maxr - retry_count)") auto

text \<open>
  \<open>max(fromisoformat(order['PurchaseDate']) for order in orders if 'PurchaseDate' in order)\<close>
\<close>

fun purchase_dates :: "pyrecord list \<Rightarrow> error + datetime list" where
  "purchase_dates [] = Inr []"
| "purchase_dates (order # orders) =
     (case dict_get order ''PurchaseDate'' of
        None \<Rightarrow> purchase_dates orders
      | Some v \<Rightarrow>
          (case fromisoformat v of
             Inl e \<Rightarrow> Inl e
           | Inr d \<Rightarrow>
               (case purchase_dates orders of
                  Inl e \<Rightarrow> Inl e
                | Inr ds \<Rightarrow> Inr (d # ds))))"

definition max_purchase_date :: "pyrecord list \<Rightarrow> error + datetime" where
  "max_purchase_date orders =
     (case purchase_dates orders of
        Inl e \<Rightarrow> Inl e
      | Inr [] \<Rightarrow> Inl ValueError
      | Inr (d # ds) \<Rightarrow> Inr (fold max ds d))"

definition emit :: "pyrecord list \<Rightarrow> world \<Rightarrow> world" where
  "emit batch w = w\<lparr>trace := trace w @ [Emit batch]\<rparr>"

definition process_order_batch :: "pyrecord list \<Rightarrow> string \<Rightarrow> world \<Rightarrow> (error + nat) \<times> world" where
  "process_order_batch orders md w =
     (let w0 = emit orders w in
      case max_purchase_date orders of
        Inl e \<Rightarrow> (Inl e, w0)
      | Inr max_date \<Rightarrow>
          (if md = ''APPEND'' then
             (case append_data orders ''Orders'' (Some max_date) w0 of
                (Inl e, w1) \<Rightarrow> (Inl e, w1)
              | (Inr res, w1) \<Rightarrow> (Inr (batch_id res), w1))
           else
             (case replace_data orders ''Orders'' (Some max_date) w0 of
                (Inl e, w1) \<Rightarrow> (Inl e, w1)
              | (Inr res, w1) \<Rightarrow> (Inr (r_batch_id res), w1))))"

definition process_inventory_batch :: "pyrecord list \<Rightarrow> string \<Rightarrow> world \<Rightarrow> (error + nat) \<times> world" where
  "process_inventory_batch inventory md w =
     (let w0 = emit inventory w in
      case replace_data inventory ''Inventory'' (Some (clock w0)) w0 of
        (Inl e, w1) \<Rightarrow> (Inl e, w1)
      | (Inr res, w1) \<Rightarrow> (Inr (r_batch_id res), w1))"

datatype flow = OrderFlow | InventoryFlow

definition process_batch :: "flow \<Rightarrow> pyrecord list \<Rightarrow> string \<Rightarrow> world \<Rightarrow> (error + nat) \<times> world" where
  "process_batch fl batch md w =
     (case fl of
        OrderFlow \<Rightarrow> process_order_batch batch md w
      | InventoryFlow \<Rightarrow> process_inventory_batch batch md w)"

definition count_batch :: "nat \<Rightarrow> nat \<Rightarrow> stats \<Rightarrow> stats" where
  "count_batch bid n st =
     st\<lparr>batch_ids := batch_ids st @ [bid],
        total_processed := total_processed st + n,
        total_batches := total_batches st + 1\<rparr>"

text \<open>
  \<open>if len(buffer) >= self.batch_size:\<close> hand the first \<open>batch_size\<close> records to the
  store, count them and keep the rest. The statistics are a dictionary updated in
  place, so what was counted before an exception stays counted.
\<close>

definition flush_if_full ::
  "BatchProcessor \<Rightarrow> flow \<Rightarrow> string \<Rightarrow> pyrecord list \<Rightarrow> stats \<Rightarrow> world
     \<Rightarrow> (error + pyrecord list) \<times> stats \<times> world" where
  "flush_if_full bp fl md buffer st w =
     (if length buffer \<ge> batch_size bp then
        (case process_batch fl (take (batch_size bp) buffer) md w of
           (Inl e, w1) \<Rightarrow> (Inl e, st, w1)
         | (Inr bid, w1) \<Rightarrow>
             (Inr (drop (batch_size bp) buffer),
              count_batch bid (length (take (batch_size bp) buffer)) st, w1))
      else (Inr buffer, st, w))"

text \<open>\<open>if buffer:\<close> hand what remains to the store.\<close>

definition flush_rest ::
  "flow \<Rightarrow> string \<Rightarrow> pyrecord list \<Rightarrow> stats \<Rightarrow> world \<Rightarrow> (error + unit) \<times> stats \<times> world" where
  "flush_rest fl md buffer st w =
     (if buffer \<noteq> [] then
        (case process_batch fl buffer md w of
           (Inl e, w1) \<Rightarrow> (Inl e, st, w1)
         | (Inr bid, w1) \<Rightarrow> (Inr (), count_batch bid (length buffer) st, w1))
      else (Inr (), st, w))"

definition truthy :: "string option \<Rightarrow> bool" where
  "truthy next_token = (case next_token of None \<Rightarrow> False | Some s \<Rightarrow> s \<noteq> [])"

text \<open>
  No statement of the store or of the processor touches the script of the upstream
  except a call, which consumes one answer when it succeeds; the page loop below
  ends for that reason.
\<close>

lemma connect_api: "connect w = (r, w1) \<Longrightarrow> api w1 = api w"
  by (auto simp: connect_def split: list.splits)

lemma record_processing_start_api: "record_processing_start t b w = (r, w1) \<Longrightarrow> api w1 = api w"
  by (auto simp: record_processing_start_def Let_def split: prod.splits option.splits
           dest: connect_api)

lemma record_processing_complete_api:
  "record_processing_complete c d n s w = (r, w1) \<Longrightarrow> api w1 = api w"
  by (auto simp: record_processing_complete_def split: prod.splits option.splits
           dest: connect_api)

lemma mark_error_api: "mark_error c d e w = (r, w1) \<Longrightarrow> api w1 = api w"
  by (auto simp: mark_error_def split: prod.splits sum.splits
           dest: record_processing_complete_api)

lemma archive_data_api: "archive_data t b w = (r, w1) \<Longrightarrow> api w1 = api w"
  by (auto simp: archive_data_def Let_def split: prod.splits option.splits if_splits
           dest: connect_api)

lemma existing_keys_api: "existing_keys k t w = (r, w1) \<Longrightarrow> api w1 = api w"
  by (auto simp: existing_keys_def split: prod.splits option.splits if_splits
           dest: connect_api)

lemma insert_records_api: "insert_records t b ks rs w = (r, w1) \<Longrightarrow> api w1 = api w"
  by (auto simp: insert_records_def split: prod.splits option.splits if_splits
           dest: connect_api)

lemma append_body_api: "append_body data t d b c w = (r, w1) \<Longrightarrow> api w1 = api w"
  unfolding append_body_def Let_def
  by (auto split: prod.splits option.splits sum.splits
           dest!: existing_keys_api insert_records_api record_processing_complete_api)

lemma replace_body_api: "replace_body data t d b c w = (r, w1) \<Longrightarrow> api w1 = api w"
  unfolding replace_body_def
  by (auto split: prod.splits sum.splits
           dest!: archive_data_api insert_records_api record_processing_complete_api)

lemma append_data_api: "append_data data t d w = (r, w1) \<Longrightarrow> api w1 = api w"
  unfolding append_data_def uuid4_def
  by (auto split: prod.splits sum.splits
           dest!: record_processing_start_api append_body_api mark_error_api)

lemma replace_data_api: "replace_data data t d w = (r, w1) \<Longrightarrow> api w1 = api w"
  unfolding replace_data_def uuid4_def
  by (auto split: prod.splits sum.splits
           dest!: record_processing_start_api replace_body_api mark_error_api)

lemma process_batch_api: "process_batch fl batch md w = (r, w1) \<Longrightarrow> api w1 = api w"
  unfolding process_batch_def process_order_batch_def process_inventory_batch_def Let_def emit_def
  by (auto split: prod.splits sum.splits flow.splits if_splits
           dest!: append_data_api replace_data_api)

lemma flush_if_full_api: "flush_if_full bp fl md buffer st w = (r, st1, w1) \<Longrightarrow> api w1 = api w"
  unfolding flush_if_full_def
  by (auto split: prod.splits sum.splits if_splits dest!: process_batch_api)

lemma flush_rest_api: "flush_rest fl md buffer st w = (r, st1, w1) \<Longrightarrow> api w1 = api w"
  unfolding flush_rest_def
  by (auto split: prod.splits sum.splits if_splits dest!: process_batch_api)

lemma api_call_consumes:
  "api_call w = (Inr resp, w1) \<Longrightarrow> length (api w1) < length (api w)"
  by (auto simp: api_call_def split: list.splits)

lemma api_call_api_le: "api_call w = (r, w1) \<Longrightarrow> length (api w1) \<le> length (api w)"
  by (auto simp: api_call_def split: list.splits)

lemma fetch_with_retry_api_le:
  "fetch_with_retry maxr rc w = (r, w1) \<Longrightarrow> length (api w1) \<le> length (api w)"
proof (induction maxr rc w arbitrary: r w1 rule: fetch_with_retry.induct)
  case (1 maxr retry_count w)
  show ?case
  proof (cases "retry_count < maxr")
    case False
    with "1.prems" show ?thesis by (simp add: fetch_with_retry.simps [of maxr retry_count w])
  next
    case True
    obtain a w' where ac: "api_call w = (a, w')" by (cases "api_call w")
    from ac have le: "length (api w') \<le> length (api w)" by (rule api_call_api_le)
    show ?thesis
    proof (cases a)
      case (Inr resp)
      with True ac "1.prems" le show ?thesis
        by (simp add: fetch_with_retry.simps [of maxr retry_count w])
    next
      case (Inl e)
      show ?thesis
      proof (cases "Suc retry_count = maxr")
        case True
        with \<open>retry_count < maxr\<close> ac Inl "1.prems" le show ?thesis
          by (simp add: fetch_with_retry.simps [of maxr retry_count w])
      next
        case False
        with \<open>retry_count < maxr\<close> ac Inl "1.prems"
        have "fetch_with_retry maxr (Suc retry_count)
                (time_sleep (seconds (2 ^ Suc retry_count)) (log_warning (Suc retry_count) w'))
              = (r, w1)"
          by (simp add: fetch_with_retry.simps [of maxr retry_count w])
        from "1.IH" [OF \<open>retry_count < maxr\<close> ac [symmetric] Inl False this]
        have "length (api w1) \<le> length (api w')"
          by (simp add: time_sleep_def log_warning_def)
        with le show ?thesis by simp
      qed
    qed
  qed
qed

lemma fetch_with_retry_consumes:
  "fetch_with_retry maxr rc w = (Inr (Some resp), w1) \<Longrightarrow> length (api w1) < length (api w)"
proof (induction maxr rc w arbitrary: w1 rule: fetch_with_retry.induct)
  case (1 maxr retry_count w)
  show ?case
  proof (cases "retry_count < maxr")
    case False
    with "1.prems" show ?thesis by (simp add: fetch_with_retry.simps [of maxr retry_count w])
  next
    case True
    obtain a w' where ac: "api_call w = (a, w')" by (cases "api_call w")
    show ?thesis
    proof (cases a)
      case (Inr resp')
      with True ac "1.prems" api_call_consumes [of w resp' w'] show ?thesis
        by (simp add: fetch_with_retry.simps [of maxr retry_count w])
    next
      case (Inl e)
      from ac have le: "length (api w') \<le> length (api w)" by (rule api_call_api_le)
      show ?thesis
      proof (cases "Suc retry_count = maxr")
        case True
        with \<open>retry_count < maxr\<close> ac Inl "1.prems" show ?thesis
          by (simp add: fetch_with_retry.simps [of maxr retry_count w])
      next
        case False
        with \<open>retry_count < maxr\<close> ac Inl "1.prems"
        have "fetch_with_retry maxr (Suc retry_count)
                (time_sleep (seconds (2 ^ Suc retry_count)) (log_warning (Suc retry_count) w'))
              = (Inr (Some resp), w1)"
          by (simp add: fetch_with_retry.simps [of maxr retry_count w])
        from "1.IH" [OF \<open>retry_count < maxr\<close> ac [symmetric] Inl False this]
        have "length (api w1) < length (api w')"
          by (simp add: time_sleep_def log_warning_def)
        with le show ?thesis by simp
      qed
    qed
  qed
qed

declare fetch_with_retry.simps [simp del]

text \<open>
  The pagination loop of \<open>process_orders\<close> (per date chunk) and of
  \<open>process_inventory\<close> (the branch without a SKU list); the two copies in the
  source differ in the names only. The result is the buffer left when the upstream
  gives no further token.
\<close>

function page_loop ::
  "BatchProcessor \<Rightarrow> flow \<Rightarrow> string \<Rightarrow> pyrecord list \<Rightarrow> stats \<Rightarrow> world
     \<Rightarrow> (error + pyrecord list) \<times> stats \<times> world" where
  "page_loop bp fl md buffer st w =
     (case fetch_with_retry (max_retries bp) 0 w of
        (Inl e, w1) \<Rightarrow> (Inl e, st, w1)
      | (Inr None, w1) \<Rightarrow> (Inl UnboundLocalError, st, w1)
      | (Inr (Some resp), w1) \<Rightarrow>
          (case flush_if_full bp fl md
                  (buffer @ (case Records resp of None \<Rightarrow> [] | Some rs \<Rightarrow> rs)) st w1 of
             (Inl e, st2, w2) \<Rightarrow> (Inl e, st2, w2)
           | (Inr buffer2, st2, w2) \<Rightarrow>
               (if \<not> truthy (NextToken resp) then (Inr buffer2, st2, w2)
                else page_loop bp fl md buffer2 st2 (time_sleep (rate_limit_pause bp) w2))))"
  by pat_completeness auto
termination
proof (relation "measure (\<lambda>(bp, fl, md, buffer, st, w). length (api w))", goal_cases)
  case 1
  show ?case by simp
next
  case 2
  then show ?case
    by (auto simp: time_sleep_def dest!: fetch_with_retry_consumes [OF sym] flush_if_full_api [OF sym])
qed

declare page_loop.simps [simp del]

text \<open>
  \<open>_chunk_date_range\<close> with \<open>chunk_days = 7\<close>, the default, which is what its
  only caller uses.
\<close>

function chunk_date_range :: "datetime \<Rightarrow> datetime \<Rightarrow> (datetime \<times> datetime) list" where
  "chunk_date_range current_date end_date =
     (if current_date < end_date then
        (let chunk_end = min (current_date + days 7) end_date in
         (current_date, chunk_end) # chunk_date_range chunk_end end_date)
      else [])"
  by pat_completeness auto
termination
  by (relation "measure (\<lambda>(current_date, end_date). nat (end_date - current_date))")
     (auto simp: days_def min_def)

declare chunk_date_range.simps [simp del]

text \<open>
  \<open>_chunk_list\<close>: \<open>range(0, len(items), chunk_size)\<close> raises \<open>ValueError\<close> for a
  zero step, at the first step of the generator.
\<close>

function slices :: "'a list \<Rightarrow> nat \<Rightarrow> 'a list list" where
  "slices items chunk_size =
     (if chunk_size = 0 \<or> items = [] then []
      else take chunk_size items # slices (drop chunk_size items) chunk_size)"
  by pat_completeness auto
termination
  by (relation "measure (\<lambda>(items, chunk_size). length items)") auto

declare slices.simps [simp del]

definition chunk_list :: "'a list \<Rightarrow> nat \<Rightarrow> error + 'a list list" where
  "chunk_list items chunk_size =
     (if chunk_size = 0 then Inl ValueError else Inr (slices items chunk_size))"

text \<open>The body of the \<open>try\<close> for one date chunk: the page loop, then the rest.\<close>

definition paginate ::
  "BatchProcessor \<Rightarrow> flow \<Rightarrow> string \<Rightarrow> stats \<Rightarrow> world \<Rightarrow> (error + unit) \<times> stats \<times> world" where
  "paginate bp fl md st w =
     (case page_loop bp fl md [] st w of
        (Inl e, st1, w1) \<Rightarrow> (Inl e, st1, w1)
      | (Inr buffer, st1, w1) \<Rightarrow> flush_rest fl md buffer st1 w1)"

definition count_error :: "stats \<Rightarrow> stats" where
  "count_error st = st\<lparr>errors := errors st + 1\<rparr>"

text \<open>
  The \<open>for\<close> loop of \<open>process_orders\<close> over the date chunks, with the \<open>try\<close>
  inside it: an exception is counted and the loop goes on.
\<close>

fun order_chunks ::
  "BatchProcessor \<Rightarrow> string \<Rightarrow> (datetime \<times> datetime) list \<Rightarrow> stats \<Rightarrow> world \<Rightarrow> stats \<times> world" where
  "order_chunks bp md [] st w = (st, w)"
| "order_chunks bp md (chunk # chunks) st w =
     (case paginate bp OrderFlow md st w of
        (Inl e, st1, w1) \<Rightarrow> order_chunks bp md chunks (count_error st1) w1
      | (Inr _, st1, w1) \<Rightarrow> order_chunks bp md chunks st1 w1)"

definition process_orders ::
  "BatchProcessor \<Rightarrow> datetime \<Rightarrow> datetime \<Rightarrow> string \<Rightarrow> world \<Rightarrow> stats \<times> world" where
  "process_orders bp start_date end_date md w =
     order_chunks bp md (chunk_date_range start_date end_date) (init_stats md) w"

text \<open>
  \<open>process_orders_incremental\<close>: the checkpoint, or thirty days back when there
  is none (a \<open>datetime\<close> is never falsy); \<open>end_date or datetime.now()\<close>.
\<close>

definition incremental_start :: "datetime option \<Rightarrow> datetime \<Rightarrow> datetime" where
  "incremental_start last_processed now =
     (case last_processed of None \<Rightarrow> now - days 30 | Some d \<Rightarrow> d)"

definition process_orders_incremental ::
  "BatchProcessor \<Rightarrow> datetime option \<Rightarrow> world \<Rightarrow> (error + stats) \<times> world" where
  "process_orders_incremental bp end_date w =
     (case get_last_processed_date ''Orders'' w of
        (Inl e, w1) \<Rightarrow> (Inl e, w1)
      | (Inr last_processed, w1) \<Rightarrow>
          (case process_orders bp (incremental_start last_processed (clock w1))
                  (case end_date of None \<Rightarrow> clock w1 | Some d \<Rightarrow> d) ''APPEND'' w1 of
             (st, w2) \<Rightarrow> (Inr st, w2)))"

text \<open>
  The \<open>for\<close> loop of \<open>process_inventory\<close> over the SKU chunks; the \<open>try\<close> is
  around the loop, so an exception leaves it.
\<close>

fun sku_chunks ::
  "BatchProcessor \<Rightarrow> string \<Rightarrow> string list list \<Rightarrow> stats \<Rightarrow> world
     \<Rightarrow> (error + unit) \<times> stats \<times> world" where
  "sku_chunks bp md [] st w = (Inr (), st, w)"
| "sku_chunks bp md (sku_chunk # rest) st w =
     (case fetch_with_retry (max_retries bp) 0 w of
        (Inl e, w1) \<Rightarrow> (Inl e, st, w1)
      | (Inr None, w1) \<Rightarrow> (Inl UnboundLocalError, st, w1)
      | (Inr (Some resp), w1) \<Rightarrow>
          (let inventory_data = (case Records resp of None \<Rightarrow> [] | Some rs \<Rightarrow> rs) in
           case process_inventory_batch inventory_data md w1 of
             (Inl e, w2) \<Rightarrow> (Inl e, st, w2)
           | (Inr bid, w2) \<Rightarrow>
               sku_chunks bp md rest (count_batch bid (length inventory_data) st)
                 (time_sleep (rate_limit_pause bp) w2)))"

definition process_inventory ::
  "BatchProcessor \<Rightarrow> string list \<Rightarrow> string \<Rightarrow> world \<Rightarrow> stats \<times> world" where
  "process_inventory bp sku_list md w =
     (case (if sku_list \<noteq> [] then
              (case chunk_list sku_list (batch_size bp) of
                 Inl e \<Rightarrow> (Inl e, init_stats md, w)
               | Inr chunks \<Rightarrow> sku_chunks bp md chunks (init_stats md) w)
            else paginate bp InventoryFlow md (init_stats md) w) of
        (Inl e, st, w1) \<Rightarrow> (count_error st, w1)
      | (Inr _, st, w1) \<Rightarrow> (st, w1))"

text \<open>
  The attributes of a \<open>StagingHandler\<close>: those its class defines, those of
  \<open>SQLServerHandler\<close>, and the instance attributes set by \<open>__init__\<close>.
\<close>

definition StagingHandler_attributes :: "string list" where
  "StagingHandler_attributes =
     [''__init__'', ''initialize_staging'', ''archive_data'', ''get_last_processed_date'',
      ''record_processing_start'', ''record_processing_complete'', ''append_data'',
      ''replace_data'', ''get_staging_errors'',
      ''get_connection'', ''_create_connection'', ''_get_sql_type'', ''_flatten_dict'',
      ''query_data'', ''execute_query'', ''execute_nonquery'', ''optimize_tables'',
      ''execute_stored_procedure'', ''bulk_insert'',
      ''conn_str'', ''pool_size'', ''_connection_pool'']"

definition getattr :: "string \<Rightarrow> error + unit" where
  "getattr name =
     (if name \<in> set StagingHandler_attributes then Inr () else Inl (AttributeError name))"

text \<open>
  \<open>process_inventory_incremental\<close>: the lookup of \<open>archive_inventory_data\<close> on the
  handler comes first; the \<open>except\<close> branch logs and re-raises.
\<close>

definition process_inventory_incremental ::
  "BatchProcessor \<Rightarrow> string list \<Rightarrow> world \<Rightarrow> (error + stats) \<times> world" where
  "process_inventory_incremental bp sku_list w =
     (case getattr ''archive_inventory_data'' of
        Inl e \<Rightarrow> (Inl e, w)
      | Inr _ \<Rightarrow>
          (case process_inventory bp sku_list ''REPLACE'' w of
             (st, w1) \<Rightarrow> (Inr st, w1)))"

section \<open>Reference notions and example inputs\<close>

text \<open>
  The checkpoint as the specification words it: the \<open>LastProcessedDate\<close> of the
  most recent control entry (the last one written) with status \<open>SUCCESS\<close> for the
  data type.
\<close>

definition most_recent_success :: "string \<Rightarrow> control_entry list \<Rightarrow> datetime option" where
  "most_recent_success data_type cs =
     (case filter (\<lambda>c. DataType c = data_type \<and> Status c = ''SUCCESS'') cs of
        [] \<Rightarrow> None
      | es \<Rightarrow> LastProcessedDate (last es))"

fun non_null :: "'a option list \<Rightarrow> 'a list" where
  "non_null [] = []"
| "non_null (None # xs) = non_null xs"
| "non_null (Some x # xs) = x # non_null xs"

text \<open>The dates of the \<open>SUCCESS\<close> entries of a data type.\<close>

definition success_dates :: "string \<Rightarrow> control_entry list \<Rightarrow> datetime list" where
  "success_dates data_type cs =
     non_null (map LastProcessedDate
       (filter (\<lambda>c. DataType c = data_type \<and> Status c = ''SUCCESS'') cs))"

definition empty_world :: world where
  "empty_world = \<lparr>stage = (\<lambda>_. []), archive = (\<lambda>_. []), control = [],
     stage_identity = (\<lambda>_. 0), control_identity = 0, uuid_supply = 0, clock = 0,
     faults = [], api = [], trace = []\<rparr>"

definition order :: "string \<Rightarrow> datetime \<Rightarrow> pyrecord" where
  "order k d = [(''AmazonOrderId'', JStr k), (''PurchaseDate'', JTime d)]"

text \<open>
  Two appends in a row on the empty store: a batch whose latest purchase is at
  instant 10, then a batch whose latest purchase is at instant 5.
\<close>

definition ledger_world1 :: world where
  "ledger_world1 = snd (append_data [order ''A'' 10] ''Orders'' (Some 10) empty_world)"

definition ledger_world2 :: world where
  "ledger_world2 = snd (append_data [order ''B'' 5] ''Orders'' (Some 5) ledger_world1)"

text \<open>
  Two replaces in a row on the store that holds order \<open>A\<close>: the first archives one
  row, the second starts with that row in the archive.
\<close>

definition replace_world1 :: world where
  "replace_world1 = snd (replace_data [order ''C'' 1] ''Orders'' None ledger_world1)"

definition replace_world2 :: world where
  "replace_world2 = snd (replace_data [order ''D'' 2] ''Orders'' None replace_world1)"



text \<open>
  The in-flight control entry is marked: an entry with the identifier exists and
  every entry with it has status \<open>ERROR\<close> and zero records processed.
\<close>

definition marked_error :: "nat \<Rightarrow> control_entry list \<Rightarrow> bool" where
  "marked_error control_id cs =
     ((\<exists>c \<in> set cs. ControlId c = control_id) \<and>
      (\<forall>c \<in> set cs. ControlId c = control_id \<longrightarrow>
          Status c = ''ERROR'' \<and> RecordsProcessed c = Some 0))"

text \<open>
  Stores whose transactions fail: the start entry is written, the next transaction
  raises, and in the first store the one after it raises too.
\<close>

definition failing_world :: world where
  "failing_world = empty_world\<lparr>faults :=
     [None, Some (SqlError ''read failed''), Some (SqlError ''update failed'')]\<rparr>"

definition read_fault_world :: world where
  "read_fault_world = empty_world\<lparr>faults := [None, Some (SqlError ''read failed'')]\<rparr>"

definition read_fault_world1 :: world where
  "read_fault_world1 = empty_world\<lparr>faults := [Some (SqlError ''read failed'')],
     uuid_supply := 1, control_identity := 1,
     control := [\<lparr>ControlId = 1, DataType = ''Orders'', LastProcessedDate = None,
                  LastBatchId = 0, RecordsProcessed = None, Status = ''IN_PROGRESS''\<rparr>]\<rparr>"

definition read_fault_world2 :: world where
  "read_fault_world2 = read_fault_world1\<lparr>faults := []\<rparr>"

text \<open>
  What \<open>k\<close> failed attempts add to the trace when the retry counter starts at
  \<open>rc\<close>: for each, the call, the logged retry with its number, and the wait of
  two to that power seconds.
\<close>

definition retry_trace :: "nat \<Rightarrow> nat \<Rightarrow> event list" where
  "retry_trace rc k =
     concat (map (\<lambda>i. [Call, Warning i, Sleep (seconds (2 ^ i))]) [Suc rc ..< Suc (rc + k)])"

definition page :: "pyrecord list \<Rightarrow> string option \<Rightarrow> response" where
  "page rs tok = \<lparr>Records = Some rs, NextToken = tok\<rparr>"

text \<open>An upstream that fails three times and then answers.\<close>

definition flaky_world :: world where
  "flaky_world = empty_world\<lparr>api :=
     [Inl (ApiError ''first''), Inl (ApiError ''second''), Inl (ApiError ''third''),
      Inr (page [order ''A'' 10] None)]\<rparr>"

text \<open>
  The scenario of the specification: batch size 2, one date chunk, one page with
  the orders \<open>A\<close>, \<open>A\<close>, \<open>B\<close>, an empty store.
\<close>

definition scenario_bp :: BatchProcessor where
  "scenario_bp = \<lparr>batch_size = 2, rate_limit_pause = 500000, max_retries = 3\<rparr>"

definition scenario_world :: world where
  "scenario_world = empty_world\<lparr>api :=
     [Inr (page [order ''A'' 10, order ''A'' 10, order ''B'' 20] None)]\<rparr>"

fun emitted :: "event list \<Rightarrow> pyrecord list list" where
  "emitted [] = []"
| "emitted (Emit b # evs) = b # emitted evs"
| "emitted (_ # evs) = emitted evs"

text \<open>
  A run over two chunks whose first fetch fails for good (one attempt allowed) and
  whose second fetch would succeed.
\<close>

definition sku_bp :: BatchProcessor where
  "sku_bp = \<lparr>batch_size = 1, rate_limit_pause = 500000, max_retries = 1\<rparr>"

definition sku_world :: world where
  "sku_world = empty_world\<lparr>api :=
     [Inl (ApiError ''timeout''), Inr (page [order ''B'' 20] None)]\<rparr>"

text \<open>
  Every page the upstream still has to give carries at most \<open>B\<close> records.
\<close>

definition pages_within :: "nat \<Rightarrow> (error + response) list \<Rightarrow> bool" where
  "pages_within B answers =
     (\<forall>resp. Inr resp \<in> set answers \<longrightarrow>
        length (case Records resp of None \<Rightarrow> [] | Some rs \<Rightarrow> rs) \<le> B)"

text \<open>
  The batch size invariant on a list of emitted batches: all but the last have
  exactly \<open>B\<close> records, and each has between 1 and \<open>B\<close>.
\<close>

definition sizes_ok :: "nat \<Rightarrow> pyrecord list list \<Rightarrow> bool" where
  "sizes_ok B bs =
     ((\<forall>b \<in> set (butlast bs). length b = B) \<and>
      (\<forall>b \<in> set bs. 1 \<le> length b \<and> length b \<le> B))"

text \<open>One page of five orders; two pages of two orders and one.\<close>

definition big_page_world :: world where
  "big_page_world = empty_world\<lparr>api :=
     [Inr (page [order ''A'' 10, order ''B'' 20, order ''C'' 30, order ''D'' 40,
                 order ''E'' 50] None)]\<rparr>"

definition paged_world :: world where
  "paged_world = empty_world\<lparr>api :=
     [Inr (page [order ''A'' 10, order ''B'' 20] (Some ''t1'')),
      Inr (page [order ''C'' 30] None)]\<rparr>"

section \<open>Properties\<close>



text \<open>
  C8. \<open>process_inventory_incremental\<close> fails with the attribute error for
  \<open>archive_inventory_data\<close>, which no class of the handler defines, for every
  processor, SKU list and world, and leaves the world as it was: nothing is fetched
  and nothing is written.
\<close>

theorem process_inventory_incremental_raises:
  "process_inventory_incremental bp sku_list w
     = (Inl (AttributeError ''archive_inventory_data''), w)"
  by (simp add: process_inventory_incremental_def getattr_def StagingHandler_attributes_def)

subsection \<open>Evaluation of the store on concrete worlds\<close>

lemmas store_defs = append_data_def append_body_def replace_data_def replace_body_def
  mark_error_def uuid4_def connect_def record_processing_start_def
  record_processing_complete_def existing_keys_def insert_records_def archive_data_def
  dedup_key_of_def record_key_def dict_get_def column_value_def has_columns_def
  STAGING_SCHEMAS_def ARCHIVE_SCHEMAS_def or_now_def to_archive_def Let_def

lemma ledger_world1_eq:
  "ledger_world1 =
     empty_world\<lparr>stage := (\<lambda>_. [])(''Orders'' :=
         [\<lparr>StagingId = 1, AmazonOrderId = Some (JStr ''A''), SellerSKU = None,
           RawData = order ''A'' 10, BatchId = 0, ValidationStatus = ''PENDING''\<rparr>]),
       control := [\<lparr>ControlId = 1, DataType = ''Orders'', LastProcessedDate = Some 10,
          LastBatchId = 0, RecordsProcessed = Some 1, Status = ''SUCCESS''\<rparr>],
       stage_identity := (\<lambda>_. 0)(''Orders'' := 1), control_identity := 1, uuid_supply := 1\<rparr>"
  by (simp add: ledger_world1_def store_defs empty_world_def order_def)

lemma ledger_world2_control:
  "control ledger_world2 =
     [\<lparr>ControlId = 1, DataType = ''Orders'', LastProcessedDate = Some 10,
       LastBatchId = 0, RecordsProcessed = Some 1, Status = ''SUCCESS''\<rparr>,
      \<lparr>ControlId = 2, DataType = ''Orders'', LastProcessedDate = Some 5,
       LastBatchId = 1, RecordsProcessed = Some 1, Status = ''SUCCESS''\<rparr>]"
  by (simp add: ledger_world2_def ledger_world1_eq store_defs empty_world_def order_def)

lemma ledger_world2_faults: "faults ledger_world2 = []"
  by (simp add: ledger_world2_def ledger_world1_eq store_defs empty_world_def order_def)

subsection \<open>The checkpoint query\<close>

lemma top1_desc_None: "top1_desc xs = None \<longleftrightarrow> xs = []"
  by (induction xs) (auto split: option.splits)

lemma top1_desc_Max:
  "top1_desc xs = Some r \<Longrightarrow>
     r = (if non_null xs = [] then None else Some (Max (set (non_null xs))))"
proof (induction xs arbitrary: r)
  case Nil
  then show ?case by simp
next
  case (Cons x xs)
  show ?case
  proof (cases "top1_desc xs")
    case None
    then have "xs = []" by (simp add: top1_desc_None)
    with Cons.prems show ?thesis by (cases x) auto
  next
    case (Some m)
    from Cons.IH [OF Some] have m: "m = (if non_null xs = [] then None
        else Some (Max (set (non_null xs))))" .
    show ?thesis
    proof (cases x)
      case None
      with Some Cons.prems m show ?thesis by auto
    next
      case (Some a)
      with \<open>top1_desc xs = Some m\<close> Cons.prems m show ?thesis
        by (cases m) (auto simp: max.commute split: if_splits)
    qed
  qed
qed

lemma get_last_processed_date_Max:
  assumes "connect w = (None, w1)"
  shows "get_last_processed_date data_type w =
     (Inr (if success_dates data_type (control w) = [] then None
           else Some (Max (set (success_dates data_type (control w))))), w1)"
proof -
  from assms have c: "control w1 = control w"
    by (auto simp: connect_def split: list.splits)
  let ?xs = "map LastProcessedDate
     (filter (\<lambda>c. DataType c = data_type \<and> Status c = ''SUCCESS'') (control w))"
  have sd: "success_dates data_type (control w) = non_null ?xs"
    by (simp add: success_dates_def)
  show ?thesis
  proof (cases "top1_desc ?xs")
    case None
    then have "?xs = []" by (simp add: top1_desc_None)
    with None assms c sd show ?thesis
      by (simp add: get_last_processed_date_def Let_def)
  next
    case (Some r)
    from top1_desc_Max [OF Some] Some assms c sd show ?thesis
      by (simp add: get_last_processed_date_def Let_def)
  qed
qed

text \<open>
  C9, as stated, fails: after two successful appends, the second with the earlier
  date, the query returns the date of the first entry (10), which is not the date of
  the most recent \<open>SUCCESS\<close> entry (5).
\<close>

theorem checkpoint_not_most_recent:
  "fst (get_last_processed_date ''Orders'' ledger_world2) = Inr (Some 10) \<and>
   most_recent_success ''Orders'' (control ledger_world2) = Some 5"
proof -
  have "connect ledger_world2 = (None, ledger_world2)"
    by (simp add: connect_def ledger_world2_faults)
  from get_last_processed_date_Max [OF this, of "''Orders''"]
  show ?thesis
    by (simp add: ledger_world2_control success_dates_def most_recent_success_def)
qed

text \<open>
  C9, amended. When the query's transaction does not fail,
  \<open>get_last_processed_date\<close> returns the greatest \<open>LastProcessedDate\<close> among the
  control entries of the data type with status \<open>SUCCESS\<close>, and an absent value when
  no such entry carries a date; when it is absent for \<open>Orders\<close>, the incremental
  order flow runs \<open>process_orders\<close> in \<open>APPEND\<close> mode from thirty days before the
  current instant.
\<close>

theorem get_last_processed_date_greatest:
  assumes "connect w = (None, w1)"
  shows "get_last_processed_date data_type w =
      (Inr (if success_dates data_type (control w) = [] then None
            else Some (Max (set (success_dates data_type (control w))))), w1) \<and>
    (success_dates ''Orders'' (control w) = [] \<longrightarrow>
       process_orders_incremental bp end_date w =
         (case process_orders bp (clock w1 - days 30)
                 (case end_date of None \<Rightarrow> clock w1 | Some d \<Rightarrow> d) ''APPEND'' w1 of
            (st, w2) \<Rightarrow> (Inr st, w2))) \<and>
    (success_dates ''Orders'' (control w) \<noteq> [] \<longrightarrow>
       process_orders_incremental bp end_date w =
         (case process_orders bp (Max (set (success_dates ''Orders'' (control w))))
                 (case end_date of None \<Rightarrow> clock w1 | Some d \<Rightarrow> d) ''APPEND'' w1 of
            (st, w2) \<Rightarrow> (Inr st, w2)))"
  using get_last_processed_date_Max [OF assms]
  by (simp add: process_orders_incremental_def incremental_start_def)

theorem get_last_processed_date_greatest_witness:
  "connect ledger_world2 = (None, ledger_world2) \<and>
   get_last_processed_date ''Orders'' ledger_world2 = (Inr (Some 10), ledger_world2) \<and>
   connect empty_world = (None, empty_world) \<and>
   get_last_processed_date ''Orders'' empty_world = (Inr None, empty_world) \<and>
   process_orders_incremental \<lparr>batch_size = 100, rate_limit_pause = 1000000, max_retries = 3\<rparr>
       None empty_world =
     (case process_orders \<lparr>batch_size = 100, rate_limit_pause = 1000000, max_retries = 3\<rparr>
             (clock empty_world - days 30) (clock empty_world) ''APPEND'' empty_world of
        (st, w2) \<Rightarrow> (Inr st, w2))"
proof -
  have h: "connect ledger_world2 = (None, ledger_world2)"
    by (simp add: connect_def ledger_world2_faults)
  have h0: "connect empty_world = (None, empty_world)"
    by (simp add: connect_def empty_world_def)
  have e: "success_dates ''Orders'' (control empty_world) = []"
    by (simp add: success_dates_def empty_world_def)
  from get_last_processed_date_greatest [OF h, of "''Orders''"]
       get_last_processed_date_greatest [OF h0, of "''Orders''"
          "\<lparr>batch_size = 100, rate_limit_pause = 1000000, max_retries = 3\<rparr>" None]
       h h0 e
  show ?thesis
    by (simp add: ledger_world2_control success_dates_def)
qed

subsection \<open>Replace\<close>

lemma connect_tables:
  "connect w = (r, w1) \<Longrightarrow> stage w1 = stage w \<and> archive w1 = archive w \<and> control w1 = control w
     \<and> stage_identity w1 = stage_identity w \<and> control_identity w1 = control_identity w
     \<and> clock w1 = clock w \<and> uuid_supply w1 = uuid_supply w \<and> trace w1 = trace w"
  by (auto simp: connect_def split: list.splits)

lemma record_processing_start_tables:
  "record_processing_start t b w = (r, w1) \<Longrightarrow> stage w1 = stage w \<and> archive w1 = archive w"
  by (auto simp: record_processing_start_def Let_def split: prod.splits option.splits
           dest!: connect_tables)

lemma record_processing_complete_tables:
  "record_processing_complete c d n s w = (r, w1) \<Longrightarrow> stage w1 = stage w \<and> archive w1 = archive w"
  by (auto simp: record_processing_complete_def split: prod.splits option.splits
           dest!: connect_tables)

lemma length_new_rows: "length ks = length rs \<Longrightarrow> length (new_rows i b ks rs) = length rs"
  by (induction i b ks rs rule: new_rows.induct) auto

lemma archive_all_success:
  "archive_data t None w = (Inr u, w1) \<Longrightarrow>
     stage w1 t = [] \<and> archive w1 t = archive w t @ map to_archive (stage w t)"
  by (auto simp: archive_data_def Let_def split: prod.splits option.splits if_splits
           dest!: connect_tables)

lemma insert_records_success:
  "insert_records t b ks rs w = (Inr u, w1) \<Longrightarrow>
     stage w1 t = stage w t @ new_rows (stage_identity w t) b ks rs \<and> archive w1 = archive w"
  by (auto simp: insert_records_def split: prod.splits option.splits if_splits
           dest!: connect_tables)

lemma replace_body_success:
  assumes "replace_body data t d b c w = (Inr res, w')"
  shows "length (stage w' t) = length data \<and>
         length (archive w' t) = length (archive w t) + length (stage w t) \<and>
         r_records_processed res = length data \<and> r_batch_id res = b"
proof -
  from assms obtain u1 w1 u2 w2 u3 where
    a: "archive_data t None w = (Inr u1, w1)" and
    i: "insert_records t b (map (\<lambda>r. dict_get r ''AmazonOrderId'') data) data w1 = (Inr u2, w2)" and
    c: "record_processing_complete c (or_now d w2) (length data) ''SUCCESS'' w2 = (Inr u3, w')" and
    r: "res = \<lparr>r_batch_id = b, r_records_processed = length data\<rparr>"
    unfolding replace_body_def by (auto split: prod.splits sum.splits)
  from archive_all_success [OF a] insert_records_success [OF i]
       record_processing_complete_tables [OF c] r
  show ?thesis by (simp add: length_new_rows)
qed

lemma replace_world1_eq:
  "replace_world1 =
     empty_world\<lparr>stage := (\<lambda>_. [])(''Orders'' :=
         [\<lparr>StagingId = 2, AmazonOrderId = Some (JStr ''C''), SellerSKU = None,
           RawData = order ''C'' 1, BatchId = 1, ValidationStatus = ''PENDING''\<rparr>]),
       archive := (\<lambda>_. [])(''Orders'' :=
         [\<lparr>OriginalId = 1, ArchivedOrderId = Some (JStr ''A''),
           ArchivedRawData = order ''A'' 10, ArchivedBatchId = 0\<rparr>]),
       control := [\<lparr>ControlId = 1, DataType = ''Orders'', LastProcessedDate = Some 10,
          LastBatchId = 0, RecordsProcessed = Some 1, Status = ''SUCCESS''\<rparr>,
         \<lparr>ControlId = 2, DataType = ''Orders'', LastProcessedDate = Some 0,
          LastBatchId = 1, RecordsProcessed = Some 1, Status = ''SUCCESS''\<rparr>],
       stage_identity := (\<lambda>_. 0)(''Orders'' := 2), control_identity := 2, uuid_supply := 2\<rparr>"
  by (simp add: replace_world1_def ledger_world1_eq store_defs empty_world_def order_def
        numeral_2_eq_2)

lemma replace_world2_result:
  "replace_data [order ''D'' 2] ''Orders'' None replace_world1
     = (Inr \<lparr>r_batch_id = 2, r_records_processed = 1\<rparr>, replace_world2)"
proof -
  have "fst (replace_data [order ''D'' 2] ''Orders'' None replace_world1)
          = Inr \<lparr>r_batch_id = 2, r_records_processed = 1\<rparr>"
    by (simp add: replace_world1_eq store_defs empty_world_def order_def)
  then show ?thesis
    by (simp add: replace_world2_def prod_eq_iff)
qed

lemma replace_world2_counts:
  "length (stage replace_world2 ''Orders'') = 1 \<and> length (archive replace_world2 ''Orders'') = 2"
  by (simp add: replace_world2_def replace_world1_eq store_defs empty_world_def order_def)

text \<open>
  C6, as stated, fails: a successful replace of one record on a table with one
  staging row and one archived row leaves three rows in staging and archive
  together, not the pre-run staging count plus the batch size, which is two.
\<close>

theorem replace_total_counts_archive:
  "fst (replace_data [order ''D'' 2] ''Orders'' None replace_world1)
     = Inr \<lparr>r_batch_id = 2, r_records_processed = 1\<rparr> \<and>
   length (stage replace_world1 ''Orders'') = 1 \<and>
   length [order ''D'' 2] = 1 \<and>
   length (stage (snd (replace_data [order ''D'' 2] ''Orders'' None replace_world1)) ''Orders'')
     + length (archive (snd (replace_data [order ''D'' 2] ''Orders'' None replace_world1)) ''Orders'')
     = 3"
  using replace_world2_counts
  by (simp add: replace_world2_result) (simp add: replace_world1_eq empty_world_def)

text \<open>
  C6, amended. After a successful \<open>replace_data\<close> the staging table holds exactly
  as many rows as the new batch has records, and staging and archive together hold
  the pre-run staging count plus the pre-run archive count plus the size of the new
  batch; the reported \<open>records_processed\<close> is the batch size.
\<close>

theorem replace_data_conservation:
  assumes "replace_data data t d w = (Inr res, w')"
  shows "length (stage w' t) = length data \<and>
         length (stage w' t) + length (archive w' t)
           = length (stage w t) + length (archive w t) + length data \<and>
         r_records_processed res = length data"
proof -
  from assms obtain cid w1 where
    s: "record_processing_start t (uuid_supply w) (w\<lparr>uuid_supply := Suc (uuid_supply w)\<rparr>) = (Inr cid, w1)"
    and b: "replace_body data t d (uuid_supply w) cid w1 = (Inr res, w')"
    unfolding replace_data_def uuid4_def by (auto split: prod.splits sum.splits)
  from record_processing_start_tables [OF s] replace_body_success [OF b]
  show ?thesis by simp
qed

theorem replace_data_conservation_witness:
  "replace_data [order ''D'' 2] ''Orders'' None replace_world1
     = (Inr \<lparr>r_batch_id = 2, r_records_processed = 1\<rparr>, replace_world2) \<and>
   length (stage replace_world2 ''Orders'') = 1 \<and>
   length (stage replace_world2 ''Orders'') + length (archive replace_world2 ''Orders'')
     = length (stage replace_world1 ''Orders'') + length (archive replace_world1 ''Orders'') + 1"
  using replace_data_conservation [OF replace_world2_result] replace_world2_result
  by simp

subsection \<open>Append\<close>













subsection \<open>Failure of the protocol\<close>

lemma record_processing_start_ids:
  "record_processing_start t b w = (Inr cid, w1) \<Longrightarrow> cid \<in> ControlId ` set (control w1)"
  by (auto simp: record_processing_start_def Let_def split: prod.splits option.splits
           dest!: connect_tables)

lemma record_processing_complete_ids:
  "record_processing_complete c d n s w = (r, w1) \<Longrightarrow>
     map ControlId (control w1) = map ControlId (control w)"
  by (auto simp: record_processing_complete_def split: prod.splits option.splits
           dest!: connect_tables)

lemma existing_keys_control: "existing_keys k t w = (r, w1) \<Longrightarrow> control w1 = control w"
  by (auto simp: existing_keys_def split: prod.splits option.splits if_splits
           dest!: connect_tables)

lemma insert_records_control: "insert_records t b ks rs w = (r, w1) \<Longrightarrow> control w1 = control w"
  by (auto simp: insert_records_def split: prod.splits option.splits if_splits
           dest!: connect_tables)

lemma archive_data_control: "archive_data t b w = (r, w1) \<Longrightarrow> control w1 = control w"
  by (auto simp: archive_data_def Let_def split: prod.splits option.splits if_splits
           dest!: connect_tables)

lemma append_body_ids:
  "append_body data t d b c w = (r, w1) \<Longrightarrow>
     map ControlId (control w1) = map ControlId (control w)"
  unfolding append_body_def Let_def
  by (auto split: prod.splits option.splits sum.splits
           dest!: existing_keys_control insert_records_control record_processing_complete_ids)

lemma replace_body_ids:
  "replace_body data t d b c w = (r, w1) \<Longrightarrow>
     map ControlId (control w1) = map ControlId (control w)"
  unfolding replace_body_def
  by (auto split: prod.splits sum.splits
           dest!: archive_data_control insert_records_control record_processing_complete_ids)

lemma marked_error_map:
  assumes "cid \<in> ControlId ` set cs"
  shows "marked_error cid
     (map (\<lambda>c. if ControlId c = cid
                then c\<lparr>Status := ''ERROR'', LastProcessedDate := x, RecordsProcessed := Some 0\<rparr>
                else c) cs)"
proof -
  let ?f = "\<lambda>c. if ControlId c = cid
                then c\<lparr>Status := ''ERROR'', LastProcessedDate := x, RecordsProcessed := Some 0\<rparr>
                else c"
  from assms obtain c where c: "c \<in> set cs" "ControlId c = cid" by auto
  then have "?f c \<in> set (map ?f cs)" "ControlId (?f c) = cid" by auto
  then have ex: "\<exists>c' \<in> set (map ?f cs). ControlId c' = cid" by blast
  have al: "\<forall>c' \<in> set (map ?f cs). ControlId c' = cid \<longrightarrow>
          Status c' = ''ERROR'' \<and> RecordsProcessed c' = Some 0"
  proof (intro ballI impI)
    fix c' assume "c' \<in> set (map ?f cs)" and i: "ControlId c' = cid"
    then have "c' \<in> ?f ` set cs" by (simp only: set_map)
    then obtain c0 where c0: "c' = ?f c0" by (rule imageE)
    show "Status c' = ''ERROR'' \<and> RecordsProcessed c' = Some 0"
    proof (cases "ControlId c0 = cid")
      case True
      with c0 show ?thesis by simp
    next
      case False
      with c0 i show ?thesis by simp
    qed
  qed
  show ?thesis unfolding marked_error_def using ex al by (rule conjI)
qed

lemma mark_error_marks:
  assumes "connect w = (None, w1)" and "cid \<in> ControlId ` set (control w)"
  shows "fst (mark_error cid d e w) = e \<and> marked_error cid (control (snd (mark_error cid d e w)))"
proof -
  from assms(1) have c: "control w1 = control w" by (auto dest: connect_tables)
  from assms(1) have "mark_error cid d e w =
     (e, w1\<lparr>control := map (\<lambda>c. if ControlId c = cid
                          then c\<lparr>Status := ''ERROR'',
                                 LastProcessedDate := Some (or_now d w),
                                 RecordsProcessed := Some 0\<rparr>
                          else c) (control w1)\<rparr>)"
    by (simp add: mark_error_def record_processing_complete_def)
  with c marked_error_map [OF assms(2), of "Some (or_now d w)"] show ?thesis
    by simp
qed

text \<open>
  C5, as stated, fails: the start entry is written, the read of the existing keys
  raises, and the update that should mark the entry raises as well; the entry stays
  \<open>IN_PROGRESS\<close> and the caller receives the exception of the update, not the
  original one.
\<close>

theorem error_mark_can_fail:
  "fst (append_data [order ''A'' 10] ''Orders'' (Some 10) failing_world)
     = Inl (SqlError ''update failed'') \<and>
   control (snd (append_data [order ''A'' 10] ''Orders'' (Some 10) failing_world))
     = [\<lparr>ControlId = 1, DataType = ''Orders'', LastProcessedDate = None,
         LastBatchId = 0, RecordsProcessed = None, Status = ''IN_PROGRESS''\<rparr>]"
  by (simp add: failing_world_def store_defs empty_world_def order_def)

text \<open>
  C5, amended. For \<open>append_data\<close> and for \<open>replace_data\<close>: once the
  \<open>IN_PROGRESS\<close> entry is written, if a statement of the protocol after it raises
  and the transaction that marks the entry does not itself fail, the in-flight entry
  has status \<open>ERROR\<close> with zero records processed in the resulting store and the
  caller receives the original exception.
\<close>

theorem error_marks_control_entry:
  assumes s: "record_processing_start t (uuid_supply w) (w\<lparr>uuid_supply := Suc (uuid_supply w)\<rparr>)
              = (Inr cid, w1)"
  shows "(\<forall>e w2 w3. append_body data t d (uuid_supply w) cid w1 = (Inl e, w2) \<and>
                    connect w2 = (None, w3) \<longrightarrow>
            fst (append_data data t d w) = Inl e \<and>
            marked_error cid (control (snd (append_data data t d w)))) \<and>
         (\<forall>e w2 w3. replace_body data t d (uuid_supply w) cid w1 = (Inl e, w2) \<and>
                    connect w2 = (None, w3) \<longrightarrow>
            fst (replace_data data t d w) = Inl e \<and>
            marked_error cid (control (snd (replace_data data t d w))))"
proof (intro conjI allI impI)
  fix e w2 w3
  assume a: "append_body data t d (uuid_supply w) cid w1 = (Inl e, w2) \<and> connect w2 = (None, w3)"
  from record_processing_start_ids [OF s] append_body_ids [of data t d "uuid_supply w" cid w1 "Inl e" w2] a
  have "cid \<in> ControlId ` set (control w2)" by (metis set_map)
  from mark_error_marks [OF conjunct2 [OF a] this, of d e]
  have m: "fst (mark_error cid d e w2) = e \<and> marked_error cid (control (snd (mark_error cid d e w2)))" .
  have "append_data data t d w = (Inl (fst (mark_error cid d e w2)), snd (mark_error cid d e w2))"
    using s a by (simp add: append_data_def uuid4_def split: prod.splits)
  with m show "fst (append_data data t d w) = Inl e" 
    and "marked_error cid (control (snd (append_data data t d w)))" by simp_all
next
  fix e w2 w3
  assume a: "replace_body data t d (uuid_supply w) cid w1 = (Inl e, w2) \<and> connect w2 = (None, w3)"
  from record_processing_start_ids [OF s] replace_body_ids [of data t d "uuid_supply w" cid w1 "Inl e" w2] a
  have "cid \<in> ControlId ` set (control w2)" by (metis set_map)
  from mark_error_marks [OF conjunct2 [OF a] this, of d e]
  have m: "fst (mark_error cid d e w2) = e \<and> marked_error cid (control (snd (mark_error cid d e w2)))" .
  have "replace_data data t d w = (Inl (fst (mark_error cid d e w2)), snd (mark_error cid d e w2))"
    using s a by (simp add: replace_data_def uuid4_def split: prod.splits)
  with m show "fst (replace_data data t d w) = Inl e" 
    and "marked_error cid (control (snd (replace_data data t d w)))" by simp_all
qed

theorem error_marks_control_entry_witness:
  "record_processing_start ''Orders'' (uuid_supply read_fault_world)
      (read_fault_world\<lparr>uuid_supply := Suc (uuid_supply read_fault_world)\<rparr>)
     = (Inr 1, read_fault_world1) \<and>
   append_body [order ''A'' 10] ''Orders'' (Some 10) (uuid_supply read_fault_world) 1
      read_fault_world1 = (Inl (SqlError ''read failed''), read_fault_world2) \<and>
   replace_body [order ''A'' 10] ''Orders'' (Some 10) (uuid_supply read_fault_world) 1
      read_fault_world1 = (Inl (SqlError ''read failed''), read_fault_world2) \<and>
   connect read_fault_world2 = (None, read_fault_world2) \<and>
   fst (append_data [order ''A'' 10] ''Orders'' (Some 10) read_fault_world)
     = Inl (SqlError ''read failed'') \<and>
   marked_error 1
     (control (snd (append_data [order ''A'' 10] ''Orders'' (Some 10) read_fault_world))) \<and>
   fst (replace_data [order ''A'' 10] ''Orders'' (Some 10) read_fault_world)
     = Inl (SqlError ''read failed'') \<and>
   marked_error 1
     (control (snd (replace_data [order ''A'' 10] ''Orders'' (Some 10) read_fault_world)))"
proof -
  have h: "record_processing_start ''Orders'' (uuid_supply read_fault_world)
      (read_fault_world\<lparr>uuid_supply := Suc (uuid_supply read_fault_world)\<rparr>)
     = (Inr 1, read_fault_world1)"
    by (simp add: read_fault_world_def read_fault_world1_def empty_world_def
          record_processing_start_def connect_def)
  have a: "append_body [order ''A'' 10] ''Orders'' (Some 10) (uuid_supply read_fault_world) 1
      read_fault_world1 = (Inl (SqlError ''read failed''), read_fault_world2)"
    by (simp add: read_fault_world_def read_fault_world1_def read_fault_world2_def
          empty_world_def append_body_def existing_keys_def connect_def dedup_key_of_def)
  have r: "replace_body [order ''A'' 10] ''Orders'' (Some 10) (uuid_supply read_fault_world) 1
      read_fault_world1 = (Inl (SqlError ''read failed''), read_fault_world2)"
    by (simp add: read_fault_world_def read_fault_world1_def read_fault_world2_def
          empty_world_def replace_body_def archive_data_def connect_def)
  have c: "connect read_fault_world2 = (None, read_fault_world2)"
    by (simp add: read_fault_world1_def read_fault_world2_def empty_world_def connect_def)
  from error_marks_control_entry [OF h, of "[order ''A'' 10]" "Some 10"] a r c
  show ?thesis using h by blast
qed

subsection \<open>The retry loop\<close>

lemma retry_trace_0: "retry_trace rc 0 = []"
  by (simp add: retry_trace_def)

lemma retry_trace_Suc:
  "retry_trace rc (Suc k) = [Call, Warning (Suc rc), Sleep (seconds (2 ^ Suc rc))] @ retry_trace (Suc rc) k"
proof -
  have h: "[Suc rc ..< Suc (rc + Suc k)] = Suc rc # [Suc (Suc rc) ..< Suc (Suc rc + k)]"
    by (simp add: upt_conv_Cons)
  show ?thesis unfolding retry_trace_def h by simp
qed

lemma fetch_success_after:
  "api w = map Inl es @ Inr resp # rest \<Longrightarrow> rc + length es < maxr \<Longrightarrow>
     fst (fetch_with_retry maxr rc w) = Inr (Some resp) \<and>
     api (snd (fetch_with_retry maxr rc w)) = rest \<and>
     trace (snd (fetch_with_retry maxr rc w)) = trace w @ retry_trace rc (length es) @ [Call]"
proof (induction es arbitrary: w rc)
  case Nil
  then show ?case
    by (simp add: fetch_with_retry.simps [of maxr rc w] api_call_def retry_trace_0)
next
  case (Cons e es)
  let ?w1 = "w\<lparr>api := map Inl es @ Inr resp # rest, trace := trace w @ [Call]\<rparr>"
  let ?w2 = "time_sleep (seconds (2 ^ Suc rc)) (log_warning (Suc rc) ?w1)"
  from Cons.prems have ac: "api_call w = (Inl e, ?w1)"
    by (simp add: api_call_def)
  from Cons.prems have lt: "rc < maxr" "Suc rc \<noteq> maxr" by auto
  from ac lt have step: "fetch_with_retry maxr rc w = fetch_with_retry maxr (Suc rc) ?w2"
    by (simp add: fetch_with_retry.simps [of maxr rc w])
  have a2: "api ?w2 = map Inl es @ Inr resp # rest"
    by (simp add: time_sleep_def log_warning_def)
  from Cons.prems have l2: "Suc rc + length es < maxr" by simp
  from Cons.IH [OF a2 l2] show ?case
    unfolding step by (simp add: time_sleep_def log_warning_def retry_trace_Suc)
qed

lemma fetch_exhausted:
  "api w = map Inl es @ Inl e # rest \<Longrightarrow> Suc (rc + length es) = maxr \<Longrightarrow>
     fst (fetch_with_retry maxr rc w) = Inl e \<and>
     api (snd (fetch_with_retry maxr rc w)) = rest \<and>
     trace (snd (fetch_with_retry maxr rc w)) = trace w @ retry_trace rc (length es) @ [Call]"
proof (induction es arbitrary: w rc)
  case Nil
  then show ?case
    by (simp add: fetch_with_retry.simps [of maxr rc w] api_call_def retry_trace_0)
next
  case (Cons e' es)
  let ?w1 = "w\<lparr>api := map Inl es @ Inl e # rest, trace := trace w @ [Call]\<rparr>"
  let ?w2 = "time_sleep (seconds (2 ^ Suc rc)) (log_warning (Suc rc) ?w1)"
  from Cons.prems have ac: "api_call w = (Inl e', ?w1)"
    by (simp add: api_call_def)
  from Cons.prems have lt: "rc < maxr" "Suc rc \<noteq> maxr" by auto
  from ac lt have step: "fetch_with_retry maxr rc w = fetch_with_retry maxr (Suc rc) ?w2"
    by (simp add: fetch_with_retry.simps [of maxr rc w])
  have a2: "api ?w2 = map Inl es @ Inl e # rest"
    by (simp add: time_sleep_def log_warning_def)
  from Cons.prems have l2: "Suc (Suc rc + length es) = maxr" by simp
  from Cons.IH [OF a2 l2] show ?case
    unfolding step by (simp add: time_sleep_def log_warning_def retry_trace_Suc)
qed

text \<open>
  C4, as stated, fails: with \<open>max_retries = 3\<close> and an upstream that fails three
  times and then succeeds, the loop makes three calls, logs two retries, raises the
  third error and never makes the call that would succeed.
\<close>

theorem retry_stops_at_max_retries_calls:
  "fst (fetch_with_retry 3 0 flaky_world) = Inl (ApiError ''third'') \<and>
   api (snd (fetch_with_retry 3 0 flaky_world)) = [Inr (page [order ''A'' 10] None)] \<and>
   trace (snd (fetch_with_retry 3 0 flaky_world))
     = [Call, Warning 1, Sleep 2000000, Call, Warning 2, Sleep 4000000, Call]"
  by (simp add: fetch_with_retry.simps flaky_world_def empty_world_def api_call_def
        time_sleep_def log_warning_def seconds_def)

text \<open>
  C4, amended. The retry loop calls the operation at most \<open>max_retries\<close> times in
  all. An operation that fails \<open>k < max_retries\<close> times and then succeeds returns
  the successful answer after exactly \<open>k\<close> logged retries, the \<open>i\<close>-th followed by
  a wait of \<open>2^i\<close> seconds, and \<open>k + 1\<close> calls, with no further attempt. When the
  \<open>max_retries\<close>-th call fails too, its error is propagated unchanged, after
  \<open>max_retries - 1\<close> logged retries and with no further wait or attempt.
\<close>

theorem retry_bound:
  "(\<forall>es resp rest. api w = map Inl es @ Inr resp # rest \<and> length es < maxr \<longrightarrow>
       fst (fetch_with_retry maxr 0 w) = Inr (Some resp) \<and>
       api (snd (fetch_with_retry maxr 0 w)) = rest \<and>
       trace (snd (fetch_with_retry maxr 0 w)) = trace w @ retry_trace 0 (length es) @ [Call]) \<and>
   (\<forall>es e rest. api w = map Inl es @ Inl e # rest \<and> Suc (length es) = maxr \<longrightarrow>
       fst (fetch_with_retry maxr 0 w) = Inl e \<and>
       api (snd (fetch_with_retry maxr 0 w)) = rest \<and>
       trace (snd (fetch_with_retry maxr 0 w)) = trace w @ retry_trace 0 (length es) @ [Call])"
proof (intro conjI allI impI)
  fix es resp rest
  assume a: "api w = map Inl es @ Inr resp # rest \<and> length es < maxr"
  then have "0 + length es < maxr" by simp
  from fetch_success_after [OF conjunct1 [OF a] this]
  show "fst (fetch_with_retry maxr 0 w) = Inr (Some resp)"
    and "api (snd (fetch_with_retry maxr 0 w)) = rest"
    and "trace (snd (fetch_with_retry maxr 0 w)) = trace w @ retry_trace 0 (length es) @ [Call]"
    by simp_all
next
  fix es e rest
  assume a: "api w = map Inl es @ Inl e # rest \<and> Suc (length es) = maxr"
  then have "Suc (0 + length es) = maxr" by simp
  from fetch_exhausted [OF conjunct1 [OF a] this]
  show "fst (fetch_with_retry maxr 0 w) = Inl e"
    and "api (snd (fetch_with_retry maxr 0 w)) = rest"
    and "trace (snd (fetch_with_retry maxr 0 w)) = trace w @ retry_trace 0 (length es) @ [Call]"
    by simp_all
qed

theorem retry_bound_witness:
  "api flaky_world
     = map Inl [ApiError ''first'', ApiError ''second'', ApiError ''third'']
       @ Inr (page [order ''A'' 10] None) # [] \<and>
   length [ApiError ''first'', ApiError ''second'', ApiError ''third''] < (4::nat) \<and>
   fst (fetch_with_retry 4 0 flaky_world) = Inr (Some (page [order ''A'' 10] None)) \<and>
   api (snd (fetch_with_retry 4 0 flaky_world)) = [] \<and>
   trace (snd (fetch_with_retry 4 0 flaky_world))
     = [Call, Warning 1, Sleep 2000000, Call, Warning 2, Sleep 4000000,
        Call, Warning 3, Sleep 8000000, Call] \<and>
   api flaky_world
     = map Inl [ApiError ''first'', ApiError ''second'']
       @ Inl (ApiError ''third'') # [Inr (page [order ''A'' 10] None)] \<and>
   Suc (length [ApiError ''first'', ApiError ''second'']) = 3 \<and>
   fst (fetch_with_retry 3 0 flaky_world) = Inl (ApiError ''third'')"
proof -
  have a1: "api flaky_world
     = map Inl [ApiError ''first'', ApiError ''second'', ApiError ''third'']
       @ Inr (page [order ''A'' 10] None) # []"
    by (simp add: flaky_world_def empty_world_def)
  have a2: "api flaky_world
     = map Inl [ApiError ''first'', ApiError ''second'']
       @ Inl (ApiError ''third'') # [Inr (page [order ''A'' 10] None)]"
    by (simp add: flaky_world_def empty_world_def)
  have t: "trace flaky_world = []"
    by (simp add: flaky_world_def empty_world_def)
  have r: "retry_trace 0 (Suc (Suc (Suc 0)))
      = [Call, Warning 1, Sleep 2000000, Call, Warning 2, Sleep 4000000,
         Call, Warning 3, Sleep 8000000]"
    by (simp add: retry_trace_def seconds_def upt_rec)
  have l1: "length [ApiError ''first'', ApiError ''second'', ApiError ''third''] < (4::nat)"
    by simp
  have l2: "Suc (length [ApiError ''first'', ApiError ''second'']) = 3"
    by simp
  from retry_bound [of flaky_world 4, THEN conjunct1, rule_format, OF conjI, OF a1 l1]
  have s: "fst (fetch_with_retry 4 0 flaky_world) = Inr (Some (page [order ''A'' 10] None)) \<and>
       api (snd (fetch_with_retry 4 0 flaky_world)) = [] \<and>
       trace (snd (fetch_with_retry 4 0 flaky_world))
         = trace flaky_world
           @ retry_trace 0 (length [ApiError ''first'', ApiError ''second'', ApiError ''third''])
           @ [Call]" .
  from retry_bound [of flaky_world 3, THEN conjunct2, rule_format, OF conjI, OF a2 l2]
  have e: "fst (fetch_with_retry 3 0 flaky_world) = Inl (ApiError ''third'')"
    by (rule conjunct1)
  from s e a1 a2 t r show ?thesis by simp
qed

subsection \<open>Evaluation of the processor on concrete worlds\<close>

lemmas processor_defs = paginate_def page_loop.simps fetch_with_retry.simps
  api_call_def flush_if_full_def flush_rest_def process_batch_def process_order_batch_def
  process_inventory_batch_def max_purchase_date_def emit_def count_batch_def count_error_def
  init_stats_def truthy_def time_sleep_def log_warning_def seconds_def page_def

lemma one_day: "days 1 = 86400000000"
  by (simp add: days_def)

lemma chunk_one_day: "chunk_date_range 0 (days 1) = [(0, days 1)]"
  unfolding one_day
  by (simp add: chunk_date_range.simps [of 0 86400000000]
        chunk_date_range.simps [of 86400000000 86400000000] days_def)

text \<open>
  C3, as stated, fails: the run counts three records processed, not two, and the
  store reports two records processed and no duplicate skipped for the batch
  \<open>[A, A]\<close> on an empty table.
\<close>

theorem scenario_counts_three:
  "total_processed (fst (process_orders scenario_bp 0 (days 1) ''APPEND'' scenario_world)) = 3 \<and>
   fst (append_data [order ''A'' 10, order ''A'' 10] ''Orders'' (Some 10) empty_world)
     = Inr \<lparr>batch_id = 0, records_processed = 2, duplicates_skipped = 0\<rparr>"
proof -
  have "fst (process_orders scenario_bp 0 (days 1) ''APPEND'' scenario_world)
     = \<lparr>total_processed = 3, total_batches = 2, errors = 0, batch_ids = [0, 1],
        mode = ''APPEND''\<rparr>"
    unfolding process_orders_def chunk_one_day
    by (simp add: processor_defs store_defs scenario_bp_def scenario_world_def
          empty_world_def order_def)
  moreover have "fst (append_data [order ''A'' 10, order ''A'' 10] ''Orders'' (Some 10) empty_world)
     = Inr \<lparr>batch_id = 0, records_processed = 2, duplicates_skipped = 0\<rparr>"
    by (simp add: store_defs empty_world_def order_def)
  ultimately show ?thesis by simp
qed

text \<open>
  C3, amended. With batch size 2 and the input \<open>[A, A, B]\<close> in \<open>APPEND\<close> mode
  on an empty store, the batches handed to the store are \<open>[A, A]\<close> and \<open>[B]\<close>;
  the first is inserted whole (two records processed, the duplicate within the batch
  is not detected), the second inserts one; the run's statistics are three records
  processed, two batches, no error.
\<close>

theorem scenario_statistics:
  "fst (process_orders scenario_bp 0 (days 1) ''APPEND'' scenario_world)
     = \<lparr>total_processed = 3, total_batches = 2, errors = 0, batch_ids = [0, 1],
        mode = ''APPEND''\<rparr> \<and>
   emitted (trace (snd (process_orders scenario_bp 0 (days 1) ''APPEND'' scenario_world)))
     = [[order ''A'' 10, order ''A'' 10], [order ''B'' 20]] \<and>
   map RecordsProcessed
       (control (snd (process_orders scenario_bp 0 (days 1) ''APPEND'' scenario_world)))
     = [Some 2, Some 1] \<and>
   map Status
       (control (snd (process_orders scenario_bp 0 (days 1) ''APPEND'' scenario_world)))
     = [''SUCCESS'', ''SUCCESS''] \<and>
   map AmazonOrderId
       (stage (snd (process_orders scenario_bp 0 (days 1) ''APPEND'' scenario_world)) ''Orders'')
     = [Some (JStr ''A''), Some (JStr ''A''), Some (JStr ''B'')]"
  unfolding process_orders_def chunk_one_day
  by (simp add: processor_defs store_defs scenario_bp_def scenario_world_def
        empty_world_def order_def)

subsection \<open>Chunk failures\<close>

lemma chunk_eight_days: "chunk_date_range 0 (days 8) = [(0, days 7), (days 7, days 8)]"
  by (simp add: chunk_date_range.simps [of 0 691200000000]
        chunk_date_range.simps [of 604800000000 691200000000]
        chunk_date_range.simps [of 691200000000 691200000000] days_def)

text \<open>
  C7 at a failing input. Over the SKU list \<open>[S1, S2]\<close> in chunks of one, when the
  fetch of the first chunk fails, \<open>process_inventory\<close> counts one error and
  returns: the second chunk is never fetched (one call in the trace, the answer for
  the second chunk still unread). Over two date chunks with the same upstream,
  \<open>process_orders\<close> counts the error of the first chunk and goes on to process
  the second.
\<close>

theorem sku_chunk_failure_ends_run:
  "fst (process_inventory sku_bp [''S1'', ''S2''] ''REPLACE'' sku_world)
     = \<lparr>total_processed = 0, total_batches = 0, errors = 1, batch_ids = [],
        mode = ''REPLACE''\<rparr> \<and>
   api (snd (process_inventory sku_bp [''S1'', ''S2''] ''REPLACE'' sku_world))
     = [Inr (page [order ''B'' 20] None)] \<and>
   trace (snd (process_inventory sku_bp [''S1'', ''S2''] ''REPLACE'' sku_world)) = [Call] \<and>
   fst (process_orders sku_bp 0 (days 8) ''APPEND'' sku_world)
     = \<lparr>total_processed = 1, total_batches = 1, errors = 1, batch_ids = [0],
        mode = ''APPEND''\<rparr> \<and>
   api (snd (process_orders sku_bp 0 (days 8) ''APPEND'' sku_world)) = []"
proof -
  have i: "fst (process_inventory sku_bp [''S1'', ''S2''] ''REPLACE'' sku_world)
     = \<lparr>total_processed = 0, total_batches = 0, errors = 1, batch_ids = [],
        mode = ''REPLACE''\<rparr> \<and>
   api (snd (process_inventory sku_bp [''S1'', ''S2''] ''REPLACE'' sku_world))
     = [Inr (page [order ''B'' 20] None)] \<and>
   trace (snd (process_inventory sku_bp [''S1'', ''S2''] ''REPLACE'' sku_world)) = [Call]"
    by (simp add: process_inventory_def chunk_list_def slices.simps processor_defs sku_bp_def
          sku_world_def empty_world_def)
  have p: "fst (process_orders sku_bp 0 (days 8) ''APPEND'' sku_world)
     = \<lparr>total_processed = 1, total_batches = 1, errors = 1, batch_ids = [0],
        mode = ''APPEND''\<rparr> \<and>
   api (snd (process_orders sku_bp 0 (days 8) ''APPEND'' sku_world)) = []"
    unfolding process_orders_def chunk_eight_days
    by (simp add: processor_defs store_defs sku_bp_def sku_world_def
          empty_world_def order_def)
  from i p show ?thesis by (intro conjI) simp_all
qed

subsection \<open>Batch sizes\<close>

lemma emitted_append: "emitted (xs @ ys) = emitted xs @ emitted ys"
  by (induction xs rule: emitted.induct) auto

lemma record_processing_start_trace: "record_processing_start t b w = (r, w1) \<Longrightarrow> trace w1 = trace w"
  by (auto simp: record_processing_start_def Let_def split: prod.splits option.splits
           dest!: connect_tables)

lemma record_processing_complete_trace:
  "record_processing_complete c d n s w = (r, w1) \<Longrightarrow> trace w1 = trace w"
  by (auto simp: record_processing_complete_def split: prod.splits option.splits
           dest!: connect_tables)

lemma mark_error_trace: "mark_error c d e w = (r, w1) \<Longrightarrow> trace w1 = trace w"
  by (auto simp: mark_error_def split: prod.splits sum.splits
           dest: record_processing_complete_trace)

lemma archive_data_trace: "archive_data t b w = (r, w1) \<Longrightarrow> trace w1 = trace w"
  by (auto simp: archive_data_def Let_def split: prod.splits option.splits if_splits
           dest!: connect_tables)

lemma existing_keys_trace: "existing_keys k t w = (r, w1) \<Longrightarrow> trace w1 = trace w"
  by (auto simp: existing_keys_def split: prod.splits option.splits if_splits
           dest!: connect_tables)

lemma insert_records_trace: "insert_records t b ks rs w = (r, w1) \<Longrightarrow> trace w1 = trace w"
  by (auto simp: insert_records_def split: prod.splits option.splits if_splits
           dest!: connect_tables)

lemma append_body_trace: "append_body data t d b c w = (r, w1) \<Longrightarrow> trace w1 = trace w"
  unfolding append_body_def Let_def
  by (auto split: prod.splits option.splits sum.splits
           dest!: existing_keys_trace insert_records_trace record_processing_complete_trace)

lemma replace_body_trace: "replace_body data t d b c w = (r, w1) \<Longrightarrow> trace w1 = trace w"
  unfolding replace_body_def
  by (auto split: prod.splits sum.splits
           dest!: archive_data_trace insert_records_trace record_processing_complete_trace)

lemma append_data_trace: "append_data data t d w = (r, w1) \<Longrightarrow> trace w1 = trace w"
  unfolding append_data_def uuid4_def
  by (auto split: prod.splits sum.splits
           dest!: record_processing_start_trace append_body_trace mark_error_trace)

lemma replace_data_trace: "replace_data data t d w = (r, w1) \<Longrightarrow> trace w1 = trace w"
  unfolding replace_data_def uuid4_def
  by (auto split: prod.splits sum.splits
           dest!: record_processing_start_trace replace_body_trace mark_error_trace)

lemma process_batch_emits:
  "process_batch fl batch md w = (r, w1) \<Longrightarrow> trace w1 = trace w @ [Emit batch]"
  unfolding process_batch_def process_order_batch_def process_inventory_batch_def Let_def emit_def
  by (auto split: prod.splits sum.splits flow.splits if_splits
           dest!: append_data_trace replace_data_trace)


lemma fetch_with_retry_facts:
  "fetch_with_retry maxr rc w = (r, w1) \<Longrightarrow>
     emitted (trace w1) = emitted (trace w) \<and> set (api w1) \<subseteq> set (api w) \<and>
     (\<forall>resp. r = Inr (Some resp) \<longrightarrow> Inr resp \<in> set (api w))"
proof (induction maxr rc w arbitrary: r w1 rule: fetch_with_retry.induct)
  case (1 maxr retry_count w)
  show ?case
  proof (cases "retry_count < maxr")
    case False
    with "1.prems" show ?thesis by (auto simp: fetch_with_retry.simps [of maxr retry_count w])
  next
    case True
    obtain a w' where ac: "api_call w = (a, w')" by (cases "api_call w")
    then have f: "emitted (trace w') = emitted (trace w)" "set (api w') \<subseteq> set (api w)"
      "\<And>resp. a = Inr resp \<Longrightarrow> Inr resp \<in> set (api w)"
      by (auto simp: api_call_def emitted_append split: list.splits)
    show ?thesis
    proof (cases a)
      case (Inr resp)
      with True ac "1.prems" f show ?thesis
        by (auto simp: fetch_with_retry.simps [of maxr retry_count w])
    next
      case (Inl e)
      show ?thesis
      proof (cases "Suc retry_count = maxr")
        case True
        with \<open>retry_count < maxr\<close> ac Inl "1.prems" f show ?thesis
          by (auto simp: fetch_with_retry.simps [of maxr retry_count w])
      next
        case False
        with \<open>retry_count < maxr\<close> ac Inl "1.prems"
        have "fetch_with_retry maxr (Suc retry_count)
                (time_sleep (seconds (2 ^ Suc retry_count)) (log_warning (Suc retry_count) w'))
              = (r, w1)"
          by (simp add: fetch_with_retry.simps [of maxr retry_count w])
        from "1.IH" [OF \<open>retry_count < maxr\<close> ac [symmetric] Inl False this] f
        show ?thesis
          by (auto simp: time_sleep_def log_warning_def emitted_append)
      qed
    qed
  qed
qed

lemma pages_within_mono: "set ys \<subseteq> set xs \<Longrightarrow> pages_within B xs \<Longrightarrow> pages_within B ys"
  by (auto simp: pages_within_def)

lemma flush_if_full_facts:
  assumes "flush_if_full bp fl md buffer st w = (r, st1, w1)"
    and "length buffer < 2 * batch_size bp"
  shows "\<exists>bs. emitted (trace w1) = emitted (trace w) @ bs \<and>
           (\<forall>b \<in> set bs. length b = batch_size bp) \<and>
           (\<forall>buf. r = Inr buf \<longrightarrow> length buf < batch_size bp)"
proof (cases "length buffer \<ge> batch_size bp")
  case False
  with assms show ?thesis by (auto simp: flush_if_full_def)
next
  case True
  obtain r' w' where pb: "process_batch fl (take (batch_size bp) buffer) md w = (r', w')"
    by (cases "process_batch fl (take (batch_size bp) buffer) md w")
  from process_batch_emits [OF pb]
  have e: "emitted (trace w') = emitted (trace w) @ [take (batch_size bp) buffer]"
    by (simp add: emitted_append)
  from True have l: "length (take (batch_size bp) buffer) = batch_size bp" by simp
  from assms True pb have w1: "w1 = w'" and
    rr: "\<forall>buf. r = Inr buf \<longrightarrow> buf = drop (batch_size bp) buffer"
    by (auto simp: flush_if_full_def split: sum.splits)
  from assms(2) have "length (drop (batch_size bp) buffer) < batch_size bp" by simp
  with e l w1 rr show ?thesis by auto
qed



lemma page_loop_facts:
  "page_loop bp fl md buffer st w = (r, st', w') \<Longrightarrow>
   length buffer < batch_size bp \<Longrightarrow> pages_within (batch_size bp) (api w) \<Longrightarrow>
     \<exists>bs. emitted (trace w') = emitted (trace w) @ bs \<and>
          (\<forall>b \<in> set bs. length b = batch_size bp) \<and>
          (\<forall>buf. r = Inr buf \<longrightarrow> length buf < batch_size bp) \<and>
          set (api w') \<subseteq> set (api w)"
proof (induction bp fl md buffer st w arbitrary: r st' w' rule: page_loop.induct)
  case (1 bp fl md buffer st w)
  obtain fr w1 where f: "fetch_with_retry (max_retries bp) 0 w = (fr, w1)"
    by (cases "fetch_with_retry (max_retries bp) 0 w")
  note ff = fetch_with_retry_facts [OF f]
  show ?case
  proof (cases fr)
    case (Inl e)
    with f "1.prems"(1) ff show ?thesis
      by (auto simp: page_loop.simps [of bp fl md buffer st w])
  next
    case (Inr ro)
    show ?thesis
    proof (cases ro)
      case None
      with Inr f "1.prems"(1) ff show ?thesis
        by (auto simp: page_loop.simps [of bp fl md buffer st w])
    next
      case (Some resp)
      let ?buffer1 = "buffer @ (case Records resp of None \<Rightarrow> [] | Some rs \<Rightarrow> rs)"
      from ff Inr Some have "Inr resp \<in> set (api w)" by simp
      with "1.prems"(3) have "length (case Records resp of None \<Rightarrow> [] | Some rs \<Rightarrow> rs)
          \<le> batch_size bp"
        by (auto simp: pages_within_def)
      with "1.prems"(2) have l1: "length ?buffer1 < 2 * batch_size bp" by simp
      obtain r2 st2 w2 where fl: "flush_if_full bp fl md ?buffer1 st w1 = (r2, st2, w2)"
        by (cases "flush_if_full bp fl md ?buffer1 st w1") auto
      from flush_if_full_facts [OF fl l1] obtain bs2 where
        e2: "emitted (trace w2) = emitted (trace w1) @ bs2" and
        s2: "\<forall>b \<in> set bs2. length b = batch_size bp" and
        b2: "\<forall>buf. r2 = Inr buf \<longrightarrow> length buf < batch_size bp" by blast
      from flush_if_full_api [OF fl] have a2: "api w2 = api w1" .
      show ?thesis
      proof (cases r2)
        case (Inl e)
        with Inr Some f fl "1.prems"(1) have "r = Inl e" "w' = w2"
          by (auto simp: page_loop.simps [of bp fl md buffer st w])
        with e2 s2 a2 ff show ?thesis by auto
      next
        case r2b: (Inr buffer2)
        show ?thesis
        proof (cases "truthy (NextToken resp)")
          case False
          with r2b Inr Some f fl "1.prems"(1) have "r = Inr buffer2" "w' = w2"
            by (auto simp: page_loop.simps [of bp fl md buffer st w])
          with e2 s2 b2 r2b a2 ff show ?thesis by auto
        next
          case True
          let ?w3 = "time_sleep (rate_limit_pause bp) w2"
          from True r2b Inr Some f fl "1.prems"(1)
          have rec: "page_loop bp fl md buffer2 st2 ?w3 = (r, st', w')"
            by (auto simp: page_loop.simps [of bp fl md buffer st w])
          have a3: "api ?w3 = api w1" "emitted (trace ?w3) = emitted (trace w2)"
            using a2 by (simp_all add: time_sleep_def emitted_append)
          from b2 r2b have lb: "length buffer2 < batch_size bp" by simp
          from ff a3 "1.prems"(3) have pw: "pages_within (batch_size bp) (api ?w3)"
            by (auto intro: pages_within_mono)
          from True have nn: "\<not> \<not> truthy (NextToken resp)" by simp
          from "1.IH" [OF f [symmetric] Inr Some fl [symmetric] r2b refl nn rec lb pw]
          obtain bs3 where
            e3: "emitted (trace w') = emitted (trace ?w3) @ bs3" and
            s3: "\<forall>b \<in> set bs3. length b = batch_size bp" and
            b3: "\<forall>buf. r = Inr buf \<longrightarrow> length buf < batch_size bp" and
            a4: "set (api w') \<subseteq> set (api ?w3)" by auto
          from e3 e2 a3 ff have "emitted (trace w') = emitted (trace w) @ (bs2 @ bs3)" by simp
          moreover from s2 s3 have "\<forall>b \<in> set (bs2 @ bs3). length b = batch_size bp" by auto
          moreover from a4 a3 ff have "set (api w') \<subseteq> set (api w)" by auto
          ultimately show ?thesis using b3 by blast
        qed
      qed
    qed
  qed
qed


lemma sizes_ok_exact:
  "\<forall>b \<in> set bs. length b = B \<Longrightarrow> 1 \<le> B \<Longrightarrow> sizes_ok B bs"
  unfolding sizes_ok_def by (auto dest: in_set_butlastD)

lemma sizes_ok_snoc:
  "\<forall>b \<in> set bs. length b = B \<Longrightarrow> 1 \<le> length x \<Longrightarrow> length x \<le> B \<Longrightarrow> sizes_ok B (bs @ [x])"
  unfolding sizes_ok_def by auto

lemma paginate_facts:
  assumes p: "paginate bp fl md st w = (r, st', w')"
    and B: "1 \<le> batch_size bp"
    and pw: "pages_within (batch_size bp) (api w)"
  shows "\<exists>bs. emitted (trace w') = emitted (trace w) @ bs \<and> sizes_ok (batch_size bp) bs \<and>
          set (api w') \<subseteq> set (api w)"
proof -
  obtain r1 st1 w1 where pl: "page_loop bp fl md [] st w = (r1, st1, w1)"
    by (cases "page_loop bp fl md [] st w") auto
  from B have "length ([] :: pyrecord list) < batch_size bp" by simp
  from page_loop_facts [OF pl this pw] obtain bs where
    e: "emitted (trace w1) = emitted (trace w) @ bs" and
    s: "\<forall>b \<in> set bs. length b = batch_size bp" and
    b: "\<forall>buf. r1 = Inr buf \<longrightarrow> length buf < batch_size bp" and
    a: "set (api w1) \<subseteq> set (api w)" by blast
  show ?thesis
  proof (cases r1)
    case (Inl err)
    with p pl have "w' = w1" by (simp add: paginate_def)
    with e a sizes_ok_exact [OF s B] show ?thesis by blast
  next
    case (Inr buffer)
    with p pl have fr: "flush_rest fl md buffer st1 w1 = (r, st', w')"
      by (simp add: paginate_def)
    from flush_rest_api [OF fr] a have a': "set (api w') \<subseteq> set (api w)" by simp
    show ?thesis
    proof (cases "buffer = []")
      case True
      with fr have "w' = w1" by (simp add: flush_rest_def)
      with e a sizes_ok_exact [OF s B] show ?thesis by blast
    next
      case False
      obtain r2 w2 where pb: "process_batch fl buffer md w1 = (r2, w2)"
        by (cases "process_batch fl buffer md w1")
      with fr False have "w' = w2" by (auto simp: flush_rest_def split: sum.splits)
      with process_batch_emits [OF pb] e
      have e': "emitted (trace w') = emitted (trace w) @ (bs @ [buffer])"
        by (simp add: emitted_append)
      from False have "1 \<le> length buffer" by (cases buffer) auto
      moreover from b Inr have "length buffer \<le> batch_size bp" by simp
      ultimately have "sizes_ok (batch_size bp) (bs @ [buffer])"
        using s by (intro sizes_ok_snoc)
      with e' a' show ?thesis by blast
    qed
  qed
qed

lemma order_chunks_facts:
  "order_chunks bp md chunks st w = (st', w') \<Longrightarrow> 1 \<le> batch_size bp \<Longrightarrow>
   pages_within (batch_size bp) (api w) \<Longrightarrow>
     \<exists>bss. length bss = length chunks \<and>
           emitted (trace w') = emitted (trace w) @ concat bss \<and>
           (\<forall>bs \<in> set bss. sizes_ok (batch_size bp) bs)"
proof (induction chunks arbitrary: st w)
  case Nil
  then show ?case by simp
next
  case (Cons c chunks)
  obtain r1 st1 w1 where p: "paginate bp OrderFlow md st w = (r1, st1, w1)"
    by (cases "paginate bp OrderFlow md st w") auto
  from paginate_facts [OF p Cons.prems(2,3)] obtain bs where
    e: "emitted (trace w1) = emitted (trace w) @ bs" and
    s: "sizes_ok (batch_size bp) bs" and
    a: "set (api w1) \<subseteq> set (api w)" by blast
  from a Cons.prems(3) have pw: "pages_within (batch_size bp) (api w1)"
    by (rule pages_within_mono)
  obtain st2 where rec: "order_chunks bp md chunks st2 w1 = (st', w')"
    using Cons.prems(1) p by (cases r1) auto
  from Cons.IH [OF rec Cons.prems(2) pw] obtain bss where
    l: "length bss = length chunks" and
    e2: "emitted (trace w') = emitted (trace w1) @ concat bss" and
    s2: "\<forall>bs \<in> set bss. sizes_ok (batch_size bp) bs" by blast
  from l e e2 s s2
  have "length (bs # bss) = length (c # chunks) \<and>
        emitted (trace w') = emitted (trace w) @ concat (bs # bss) \<and>
        (\<forall>x \<in> set (bs # bss). sizes_ok (batch_size bp) x)" by simp
  then show ?case by blast
qed

text \<open>
  C1 at a failing input. The loop hands \<open>buffer[:batch_size]\<close> to the store, so
  it bounds the batch it flushes, but it flushes once per page (\<open>if\<close>, where
  \<open>while\<close> is needed) and then hands over whatever remains: with batch size 2 and
  one page of five orders the batches handed to the store have 2 and 3 records, and
  the second exceeds the batch size.
\<close>

theorem final_batch_exceeds_batch_size:
  "batch_size scenario_bp = 2 \<and>
   map length
     (emitted (trace (snd (process_orders scenario_bp 0 (days 1) ''APPEND'' big_page_world))))
     = [2, 3]"
  unfolding process_orders_def chunk_one_day
  by (simp add: processor_defs store_defs scenario_bp_def big_page_world_def
        empty_world_def order_def)

text \<open>
  Where the single flush per page is enough. The defect above needs a page that
  brings the buffer to twice the batch size or more. For a batch size \<open>B \<ge> 1\<close>
  and an upstream whose pages each carry at most \<open>B\<close> records it cannot occur: the
  batches emitted by the pagination loop of one date chunk of \<open>process_orders\<close>,
  and by the pagination loop of \<open>process_inventory\<close>, all have exactly \<open>B\<close>
  records except possibly the last, which has between 1 and \<open>B\<close>, and a run of
  \<open>process_orders\<close> emits one such sequence per date chunk.
\<close>

lemma batch_size_invariant:
  assumes B: "1 \<le> batch_size bp"
    and pw: "pages_within (batch_size bp) (api w)"
  shows "(\<exists>bs. emitted (trace (snd (snd (paginate bp fl md st w)))) = emitted (trace w) @ bs \<and>
               sizes_ok (batch_size bp) bs) \<and>
         (\<exists>bs. emitted (trace (snd (process_inventory bp [] md w))) = emitted (trace w) @ bs \<and>
               sizes_ok (batch_size bp) bs) \<and>
         (\<exists>bss. length bss = length (chunk_date_range start_date end_date) \<and>
               emitted (trace (snd (process_orders bp start_date end_date md w)))
                 = emitted (trace w) @ concat bss \<and>
               (\<forall>bs \<in> set bss. sizes_ok (batch_size bp) bs))"
proof (intro conjI)
  obtain r st' w' where p: "paginate bp fl md st w = (r, st', w')"
    by (cases "paginate bp fl md st w") auto
  from paginate_facts [OF p B pw] p
  show "\<exists>bs. emitted (trace (snd (snd (paginate bp fl md st w)))) = emitted (trace w) @ bs \<and>
               sizes_ok (batch_size bp) bs" by auto
next
  obtain r st' w' where p: "paginate bp InventoryFlow md (init_stats md) w = (r, st', w')"
    by (cases "paginate bp InventoryFlow md (init_stats md) w") auto
  then have "snd (process_inventory bp [] md w) = w'"
    by (cases r) (simp_all add: process_inventory_def)
  with paginate_facts [OF p B pw]
  show "\<exists>bs. emitted (trace (snd (process_inventory bp [] md w))) = emitted (trace w) @ bs \<and>
               sizes_ok (batch_size bp) bs" by auto
next
  obtain st' w' where o: "order_chunks bp md (chunk_date_range start_date end_date)
       (init_stats md) w = (st', w')"
    by (cases "order_chunks bp md (chunk_date_range start_date end_date) (init_stats md) w")
  from order_chunks_facts [OF o B pw] o
  show "\<exists>bss. length bss = length (chunk_date_range start_date end_date) \<and>
               emitted (trace (snd (process_orders bp start_date end_date md w)))
                 = emitted (trace w) @ concat bss \<and>
               (\<forall>bs \<in> set bss. sizes_ok (batch_size bp) bs)"
    by (simp add: process_orders_def)
qed

lemma batch_size_invariant_example:
  "1 \<le> batch_size scenario_bp \<and>
   pages_within (batch_size scenario_bp) (api paged_world) \<and>
   emitted (trace (snd (process_orders scenario_bp 0 (days 1) ''APPEND'' paged_world)))
     = [[order ''A'' 10, order ''B'' 20], [order ''C'' 30]] \<and>
   sizes_ok 2 [[order ''A'' 10, order ''B'' 20], [order ''C'' 30]]"
proof -
  have h1: "1 \<le> batch_size scenario_bp" by (simp add: scenario_bp_def)
  have h2: "pages_within (batch_size scenario_bp) (api paged_world)"
    by (auto simp: pages_within_def scenario_bp_def paged_world_def empty_world_def page_def)
  have t: "emitted (trace paged_world) = []"
    by (simp add: paged_world_def empty_world_def)
  have v: "emitted (trace (snd (process_orders scenario_bp 0 (days 1) ''APPEND'' paged_world)))
     = [[order ''A'' 10, order ''B'' 20], [order ''C'' 30]]"
    unfolding process_orders_def chunk_one_day
    by (simp add: processor_defs store_defs scenario_bp_def paged_world_def
          empty_world_def order_def)
  from batch_size_invariant [OF h1 h2, of OrderFlow "''APPEND''" "init_stats ''APPEND''"
         0 "days 1"]
  obtain bss where l: "length bss = length (chunk_date_range 0 (days 1))"
    and e: "emitted (trace (snd (process_orders scenario_bp 0 (days 1) ''APPEND'' paged_world)))
                 = emitted (trace paged_world) @ concat bss"
    and s: "\<forall>bs \<in> set bss. sizes_ok (batch_size scenario_bp) bs" by blast
  from l have "length bss = Suc 0" unfolding chunk_one_day by simp
  then obtain bs where bss: "bss = [bs]" by (cases bss) auto
  with e t v have "bs = [[order ''A'' 10, order ''B'' 20], [order ''C'' 30]]" by simp
  with s bss have "sizes_ok 2 [[order ''A'' 10, order ''B'' 20], [order ''C'' 30]]"
    by (simp add: scenario_bp_def)
  with h1 h2 v show ?thesis by simp
qed

end
